theory Spec2Isabelle
  imports Main "HOL-Library.Sublist" "HOL-Library.AList" "HOL-Library.Multiset"
begin

section \<open>Object keys\<close>

text \<open>
  JavaScript strings are modelled as \<open>string\<close>, one list element per code unit.
  \<^verbatim>\<open>[prefix, uri].join('/')\<close> on two strings is \<open>prefix + '/' + uri\<close>.
\<close>

definition joinUriSegments :: "string \<Rightarrow> string \<Rightarrow> string" where
  "joinUriSegments pfx uri = (if pfx = '''' then uri else pfx @ ''/'' @ uri)"

section \<open>JavaScript library functions used by the adapter\<close>

text \<open>\<^verbatim>\<open>String.prototype.indexOf\<close>: the first position at which the needle occurs, or -1.\<close>

fun indexOf_from :: "nat \<Rightarrow> string \<Rightarrow> string \<Rightarrow> int" where
  "indexOf_from i [] t = (if t = [] then int i else - 1)"
| "indexOf_from i (c # cs) t =
     (if prefix t (c # cs) then int i else indexOf_from (Suc i) cs t)"

definition str_indexOf :: "string \<Rightarrow> string \<Rightarrow> int" where
  "str_indexOf s t = indexOf_from 0 s t"

text \<open>\<^verbatim>\<open>Array.prototype.indexOf\<close> with strict equality.\<close>

fun arr_indexOf_from :: "nat \<Rightarrow> 'a list \<Rightarrow> 'a \<Rightarrow> int" where
  "arr_indexOf_from i [] x = - 1"
| "arr_indexOf_from i (y # ys) x = (if y = x then int i else arr_indexOf_from (Suc i) ys x)"

definition arr_indexOf :: "'a list \<Rightarrow> 'a \<Rightarrow> int" where
  "arr_indexOf xs x = arr_indexOf_from 0 xs x"

text \<open>\<^verbatim>\<open>s.substr(n)\<close> with one argument \<open>0 \<le> n\<close>: the string from position \<open>n\<close> on.\<close>

definition substr :: "string \<Rightarrow> nat \<Rightarrow> string" where
  "substr s n = drop n s"

text \<open>
  \<^verbatim>\<open>Array.prototype.sort(cmp)\<close>: the array ordered so that \<open>cmp a b \<le> 0\<close> for
  neighbours, elements that compare equal keeping their order (the sort of ES2019 is
  stable). Modelled as a stable insertion sort.
\<close>

fun insert_by :: "('a \<Rightarrow> 'a \<Rightarrow> int) \<Rightarrow> 'a \<Rightarrow> 'a list \<Rightarrow> 'a list" where
  "insert_by cmp x [] = [x]"
| "insert_by cmp x (y # ys) =
     (if cmp x y \<le> 0 then x # y # ys else y # insert_by cmp x ys)"

definition array_sort :: "('a \<Rightarrow> 'a \<Rightarrow> int) \<Rightarrow> 'a list \<Rightarrow> 'a list" where
  "array_sort cmp xs = foldr (insert_by cmp) xs []"

section \<open>Data model\<close>

text \<open>
  Rejection reasons: the two string literals of the adapter, an error handed over by the
  storage client, and the \<^verbatim>\<open>TypeError\<close> of reading a property of \<^verbatim>\<open>undefined\<close>.
\<close>

datatype error = Message string | ApiError string | TypeError

text \<open>
  How a promise of the adapter ends. \<open>Crashed\<close> is an \<^verbatim>\<open>'error'\<close> event with no
  listener (the read stream of \<open>upload\<close>): the promise is never settled.
\<close>

datatype 'a promise = Resolved 'a | Rejected error | Crashed

text \<open>
  The fields of an object resource that the adapter writes or reads. \<open>metadata\<close> is the
  custom key/value metadata (\<^verbatim>\<open>meta.metadata\<close>); an absent property is \<open>None\<close>.
\<close>

record file_metadata =
  contentType :: "string option"
  cacheControl :: "string option"
  acl :: "string option"
  metadata :: "(string \<times> string) list option"

text \<open>
  A stored object. \<open>updated\<close> is the resource's \<^verbatim>\<open>updated\<close> date as milliseconds since
  the epoch, which is what \<^verbatim>\<open>new Date(...)\<close> turns it into in the comparator.
\<close>

record gcs_object =
  body :: string
  gzipped :: bool
  public_read :: bool
  updated :: int
  props :: file_metadata

text \<open>A \<^verbatim>\<open>File\<close> handed out by \<^verbatim>\<open>getFiles\<close>: \<^verbatim>\<open>d.name\<close> and \<^verbatim>\<open>d.metadata\<close>.\<close>

record gcs_file =
  name :: string
  resource :: gcs_object

record revision =
  revision :: string
  timestamp :: int
  active :: "bool option"

text \<open>
  The third argument of the \<^verbatim>\<open>getMetadata\<close> callback, as far as the adapter reads it:
  \<^verbatim>\<open>response.error.code\<close>, \<open>None\<close> when the response has no \<^verbatim>\<open>error\<close> or the error no
  number as code.
\<close>

datatype response = Response (error_code: "int option")

datatype getMetadata_result =
  GotMetadata gcs_object
| GetMetadataError error "response option"

record write_params =
  params_metadata :: file_metadata
  params_gzip :: "bool option"

text \<open>A request to the storage client, with the bucket and the object name or prefix.\<close>

datatype call =
  GetFiles string string
| GetMetadata string string
| CreateWriteStream string string write_params
| Copy string string string
| MakePublic string string
| SetMetadata string string file_metadata

text \<open>
  A line given to \<^verbatim>\<open>plugin.log\<close>: a message, a message with \<^verbatim>\<open>verbose: true\<close>, or
  an error.
\<close>

datatype log_entry = LogMessage string | LogVerbose string | LogError error

text \<open>
  The world the adapter acts on: the objects of all buckets, keyed by bucket and object
  name, the requests sent to the storage client so far, and the lines given to
  \<^verbatim>\<open>plugin.log\<close>.
\<close>

record world =
  objects :: "((string \<times> string) \<times> gcs_object) list"
  calls :: "call list"
  logged :: "log_entry list"

text \<open>
  What lies outside the adapter during one operation: the failures of the storage
  service, which of the two promises of \<^verbatim>\<open>RSVP.hash\<close> settles first, the date the
  service stamps on what it writes, the local files, and \<^verbatim>\<open>mime.lookup\<close>
  (\<open>None\<close> for \<^verbatim>\<open>false\<close>).
\<close>

record env =
  getFiles_error :: "error option"
  getMetadata_error :: "(error \<times> response option) option"
  current_settles_first :: bool
  write_error :: "error option"
  copy_error :: "error option"
  makePublic_error :: "error option"
  setMetadata_error :: "error option"
  now :: int
  local_files :: "(string \<times> string) list"
  mime_lookup :: "string \<Rightarrow> string option"

record options =
  bucket :: string
  prefix' :: string
  filePattern :: string
  revisionKey :: string
  filePath :: string
  acl_opt :: "string option"
  allowOverwrite :: bool
  gzippedFilePaths :: "string list option"
  meta :: "file_metadata option"
  makePublic :: bool

section \<open>The storage service\<close>

text \<open>
  The storage client is a collaborator of the adapter. Its model: a request that fails
  changes nothing; a request on an absent object fails with the client's not-found
  error; \<open>getFiles\<close> returns the objects of the bucket whose name starts with the
  prefix, in the order of the store; \<open>copy\<close> carries body and metadata over and leaves
  the copy non-public; \<open>setMetadata\<close> patches the fields it is given and merges the
  custom metadata.

  The adapter imports \<^verbatim>\<open>{ Storage }\<close> from the client, the export of its version 2 and
  later. That client hands the \<^verbatim>\<open>getMetadata\<close> callback the HTTP response as third
  argument, which has a status code and a body but no \<^verbatim>\<open>error\<close> property: for an absent
  object the response is \<open>Response None\<close>.
\<close>

definition record_call :: "call \<Rightarrow> world \<Rightarrow> world" where
  "record_call c w = w\<lparr>calls := calls w @ [c]\<rparr>"

definition listing :: "string \<Rightarrow> string \<Rightarrow> ((string \<times> string) \<times> gcs_object) list \<Rightarrow> gcs_file list" where
  "listing bkt pfx objs =
     map (\<lambda>kv. \<lparr>name = snd (fst kv), resource = snd kv\<rparr>)
       (filter (\<lambda>kv. fst (fst kv) = bkt \<and> prefix pfx (snd (fst kv))) objs)"

definition not_found :: error where
  "not_found = ApiError ''Not Found''"

definition bucket_getFiles :: "env \<Rightarrow> string \<Rightarrow> string \<Rightarrow> world \<Rightarrow> (error + gcs_file list) \<times> world" where
  "bucket_getFiles e bkt pfx w =
     (case getFiles_error e of
        Some err \<Rightarrow> (Inl err, record_call (GetFiles bkt pfx) w)
      | None \<Rightarrow> (Inr (listing bkt pfx (objects w)), record_call (GetFiles bkt pfx) w))"

definition file_getMetadata :: "env \<Rightarrow> string \<Rightarrow> string \<Rightarrow> world \<Rightarrow> getMetadata_result \<times> world" where
  "file_getMetadata e bkt key w =
     (case getMetadata_error e of
        Some (err, resp) \<Rightarrow> (GetMetadataError err resp, record_call (GetMetadata bkt key) w)
      | None \<Rightarrow>
          (case map_of (objects w) (bkt, key) of
             None \<Rightarrow> (GetMetadataError not_found (Some (Response None)),
                       record_call (GetMetadata bkt key) w)
           | Some ob \<Rightarrow> (GotMetadata ob, record_call (GetMetadata bkt key) w)))"

definition put_object :: "string \<Rightarrow> string \<Rightarrow> gcs_object \<Rightarrow> world \<Rightarrow> world" where
  "put_object bkt key ob w = w\<lparr>objects := AList.update (bkt, key) ob (objects w)\<rparr>"

definition file_copy :: "env \<Rightarrow> string \<Rightarrow> string \<Rightarrow> string \<Rightarrow> world \<Rightarrow> (error + string) \<times> world" where
  "file_copy e bkt src dst w =
     (case copy_error e of
        Some err \<Rightarrow> (Inl err, record_call (Copy bkt src dst) w)
      | None \<Rightarrow>
          (case map_of (objects w) (bkt, src) of
             None \<Rightarrow> (Inl not_found, record_call (Copy bkt src dst) w)
           | Some ob \<Rightarrow>
               (Inr dst,
                put_object bkt dst (ob\<lparr>public_read := False, updated := now e\<rparr>)
                  (record_call (Copy bkt src dst) w))))"

definition file_makePublic :: "env \<Rightarrow> string \<Rightarrow> string \<Rightarrow> world \<Rightarrow> (error + unit) \<times> world" where
  "file_makePublic e bkt key w =
     (case makePublic_error e of
        Some err \<Rightarrow> (Inl err, record_call (MakePublic bkt key) w)
      | None \<Rightarrow>
          (case map_of (objects w) (bkt, key) of
             None \<Rightarrow> (Inl not_found, record_call (MakePublic bkt key) w)
           | Some ob \<Rightarrow>
               (Inr (),
                put_object bkt key (ob\<lparr>public_read := True\<rparr>)
                  (record_call (MakePublic bkt key) w))))"

definition patch_field :: "'a option \<Rightarrow> 'a option \<Rightarrow> 'a option" where
  "patch_field new old = (case new of None \<Rightarrow> old | Some v \<Rightarrow> Some v)"

definition merge_custom ::
  "(string \<times> string) list option \<Rightarrow> (string \<times> string) list option \<Rightarrow> (string \<times> string) list option" where
  "merge_custom new old =
     (case new of
        None \<Rightarrow> old
      | Some kvs \<Rightarrow> Some (AList.merge (case old of None \<Rightarrow> [] | Some al \<Rightarrow> al) kvs))"

definition patch :: "file_metadata \<Rightarrow> file_metadata \<Rightarrow> file_metadata" where
  "patch m old =
     \<lparr>contentType = patch_field (contentType m) (contentType old),
      cacheControl = patch_field (cacheControl m) (cacheControl old),
      acl = patch_field (acl m) (acl old),
      metadata = merge_custom (metadata m) (metadata old)\<rparr>"

definition file_setMetadata ::
  "env \<Rightarrow> string \<Rightarrow> string \<Rightarrow> file_metadata \<Rightarrow> world \<Rightarrow> (error + unit) \<times> world" where
  "file_setMetadata e bkt key m w =
     (case setMetadata_error e of
        Some err \<Rightarrow> (Inl err, record_call (SetMetadata bkt key m) w)
      | None \<Rightarrow>
          (case map_of (objects w) (bkt, key) of
             None \<Rightarrow> (Inl not_found, record_call (SetMetadata bkt key m) w)
           | Some ob \<Rightarrow>
               (Inr (),
                put_object bkt key (ob\<lparr>updated := now e, props := patch m (props ob)\<rparr>)
                  (record_call (SetMetadata bkt key m) w))))"

text \<open>
  \<^verbatim>\<open>fs.createReadStream(path).pipe(file.createWriteStream(params))\<close>: \<open>Inl None\<close> is
  the read stream's error, which no listener takes; \<open>Inl (Some err)\<close> is the write
  stream's \<^verbatim>\<open>'error'\<close>; \<open>Inr ()\<close> is \<^verbatim>\<open>'finish'\<close>.
\<close>

definition pipe_file ::
  "env \<Rightarrow> string \<Rightarrow> string \<Rightarrow> string \<Rightarrow> write_params \<Rightarrow> world \<Rightarrow> (error option + unit) \<times> world" where
  "pipe_file e path bkt key params w =
     (case map_of (local_files e) path of
        None \<Rightarrow> (Inl None, record_call (CreateWriteStream bkt key params) w)
      | Some content \<Rightarrow>
          (case write_error e of
             Some err \<Rightarrow> (Inl (Some err), record_call (CreateWriteStream bkt key params) w)
           | None \<Rightarrow>
               (Inr (),
                put_object bkt key
                  \<lparr>body = content, gzipped = (params_gzip params = Some True),
                   public_read = False, updated = now e, props = params_metadata params\<rparr>
                  (record_call (CreateWriteStream bkt key params) w))))"

section \<open>fetchRevisions\<close>

definition is_404 :: "response option \<Rightarrow> bool" where
  "is_404 resp =
     (case resp of
        None \<Rightarrow> False
      | Some r \<Rightarrow> (case error_code r of None \<Rightarrow> False | Some c \<Rightarrow> c = 404))"

text \<open>The promise \<open>current\<close>: resolved with nothing on a 404, with the metadata otherwise.\<close>

definition current_promise :: "getMetadata_result \<Rightarrow> error + gcs_object option" where
  "current_promise r =
     (case r of
        GetMetadataError err resp \<Rightarrow> (if is_404 resp then Inr None else Inl err)
      | GotMetadata m \<Rightarrow> Inr (Some m))"

text \<open>\<^verbatim>\<open>RSVP.hash\<close> rejects with the reason of the promise that is rejected first.\<close>

definition rsvp_hash :: "bool \<Rightarrow> error + 'a \<Rightarrow> error + 'b \<Rightarrow> error + ('a \<times> 'b)" where
  "rsvp_hash second_first a b =
     (case (a, b) of
        (Inr x, Inr y) \<Rightarrow> Inr (x, y)
      | (Inl ea, Inr y) \<Rightarrow> Inl ea
      | (Inr x, Inl eb) \<Rightarrow> Inl eb
      | (Inl ea, Inl eb) \<Rightarrow> Inl (if second_first then eb else ea))"

definition by_updated_desc :: "gcs_file \<Rightarrow> gcs_file \<Rightarrow> int" where
  "by_updated_desc a b = updated (resource b) - updated (resource a)"

text \<open>
  \<^verbatim>\<open>data.current.metadata.revision\<close> as the argument of \<^verbatim>\<open>indexOf\<close>: reading
  \<^verbatim>\<open>revision\<close> of an absent \<^verbatim>\<open>metadata\<close> throws, and an absent \<^verbatim>\<open>revision\<close> is
  \<^verbatim>\<open>undefined\<close>, which \<^verbatim>\<open>indexOf\<close> turns into the string \<^verbatim>\<open>"undefined"\<close>.
\<close>

definition recorded_revision :: "gcs_object \<Rightarrow> error + string" where
  "recorded_revision cur =
     (case metadata (props cur) of
        None \<Rightarrow> Inl TypeError
      | Some kvs \<Rightarrow>
          (case map_of kvs ''revision'' of
             None \<Rightarrow> Inr ''undefined''
           | Some r \<Rightarrow> Inr r))"

text \<open>The callback of \<^verbatim>\<open>map\<close>; \<open>active\<close> is \<open>None\<close> for \<^verbatim>\<open>undefined\<close>.\<close>

definition to_revision :: "string \<Rightarrow> gcs_object option \<Rightarrow> gcs_file \<Rightarrow> error + revision" where
  "to_revision revisionPrefix current d =
     (case current of
        None \<Rightarrow>
          Inr \<lparr>revision = substr (name d) (length revisionPrefix),
               timestamp = updated (resource d), active = None\<rparr>
      | Some cur \<Rightarrow>
          (case recorded_revision cur of
             Inl err \<Rightarrow> Inl err
           | Inr r \<Rightarrow>
               Inr \<lparr>revision = substr (name d) (length revisionPrefix),
                    timestamp = updated (resource d),
                    active = Some (str_indexOf (name d) r \<ge> 0)\<rparr>))"

fun map_throwing :: "('a \<Rightarrow> error + 'b) \<Rightarrow> 'a list \<Rightarrow> error + 'b list" where
  "map_throwing f [] = Inr []"
| "map_throwing f (x # xs) =
     (case f x of
        Inl err \<Rightarrow> Inl err
      | Inr y \<Rightarrow> (case map_throwing f xs of Inl err \<Rightarrow> Inl err | Inr ys \<Rightarrow> Inr (y # ys)))"

definition revisionPrefix_of :: "options \<Rightarrow> string" where
  "revisionPrefix_of opts = joinUriSegments (prefix' opts) (filePattern opts @ '':'')"

definition indexKey_of :: "options \<Rightarrow> string" where
  "indexKey_of opts = joinUriSegments (prefix' opts) (filePattern opts)"

text \<open>
  The callback of \<^verbatim>\<open>then\<close> on the hash: \<open>data_revisions\<close> is \<^verbatim>\<open>data.revisions\<close>,
  \<open>data_current\<close> is \<^verbatim>\<open>data.current\<close>. What it throws rejects the promise.
\<close>

definition sort_and_map :: "string \<Rightarrow> gcs_file list \<Rightarrow> gcs_object option \<Rightarrow> error + revision list" where
  "sort_and_map revisionPrefix data_revisions data_current =
     map_throwing (to_revision revisionPrefix data_current)
       (array_sort by_updated_desc data_revisions)"

definition fetchRevisions :: "env \<Rightarrow> options \<Rightarrow> world \<Rightarrow> revision list promise \<times> world" where
  "fetchRevisions e opts w =
     (case bucket_getFiles e (bucket opts) (revisionPrefix_of opts) w of
        (revisions, w1) \<Rightarrow>
          (case file_getMetadata e (bucket opts) (indexKey_of opts) w1 of
             (current, w2) \<Rightarrow>
               (case rsvp_hash (current_settles_first e) revisions (current_promise current) of
                  Inl err \<Rightarrow> (Rejected err, w2)
                | Inr data \<Rightarrow>
                    (case sort_and_map (revisionPrefix_of opts) (fst data) (snd data) of
                       Inl err \<Rightarrow> (Rejected err, w2)
                     | Inr revs \<Rightarrow> (Resolved revs, w2)))))"

section \<open>upload\<close>

text \<open>\<^verbatim>\<open>mime.lookup(path) || 'text/html'\<close>: \<^verbatim>\<open>false\<close> and the empty string are falsy.\<close>

definition upload_contentType :: "env \<Rightarrow> options \<Rightarrow> string" where
  "upload_contentType e opts =
     (case mime_lookup e (filePath opts) of
        None \<Rightarrow> ''text/html''
      | Some t \<Rightarrow> (if t = '''' then ''text/html'' else t))"

definition isGzipped :: "options \<Rightarrow> bool" where
  "isGzipped opts =
     (arr_indexOf (case gzippedFilePaths opts of None \<Rightarrow> [] | Some ps \<Rightarrow> ps) (filePattern opts)
        \<noteq> - 1)"

definition upload_params :: "env \<Rightarrow> options \<Rightarrow> write_params" where
  "upload_params e opts =
     \<lparr>params_metadata =
        \<lparr>contentType = Some (upload_contentType e opts),
         cacheControl = Some ''max-age=0, no-cache'',
         acl = acl_opt opts,
         metadata = None\<rparr>,
      params_gzip = (if isGzipped opts then Some True else None)\<rparr>"

definition upload_key :: "options \<Rightarrow> string" where
  "upload_key opts =
     joinUriSegments (prefix' opts) (filePattern opts @ '':'' @ revisionKey opts)"

definition already_uploaded :: error where
  "already_uploaded =
     Message ''REVISION ALREADY UPLOADED! (set `allowOverwrite: true` if you want to support overwriting revisions)''"

text \<open>The check mark of the log lines, as its three UTF-8 bytes, and two blanks.\<close>

definition check_mark :: string where
  "check_mark = [CHR 0xE2, CHR 0x9C, CHR 0x94] @ ''  ''"

definition plugin_log :: "log_entry \<Rightarrow> world \<Rightarrow> world" where
  "plugin_log l w = w\<lparr>logged := logged w @ [l]\<rparr>"

definition upload :: "env \<Rightarrow> options \<Rightarrow> world \<Rightarrow> unit promise \<times> world" where
  "upload e opts w =
     (case fetchRevisions e opts w of
        (Crashed, w1) \<Rightarrow> (Crashed, w1)
      | (Rejected err, w1) \<Rightarrow> (Rejected err, w1)
      | (Resolved revisions, w1) \<Rightarrow>
          (if arr_indexOf (map revision revisions) (revisionKey opts) \<ge> 0 \<and> \<not> allowOverwrite opts
           then (Rejected already_uploaded, w1)
           else
             (case pipe_file e (filePath opts) (bucket opts) (upload_key opts)
                     (upload_params e opts) w1 of
                (Inl None, w2) \<Rightarrow> (Crashed, w2)
              | (Inl (Some err), w2) \<Rightarrow> (Rejected err, w2)
              | (Inr u, w2) \<Rightarrow>
                  (Resolved (), plugin_log (LogVerbose (check_mark @ upload_key opts)) w2))))"

section \<open>activate\<close>

text \<open>
  The defaults written into \<^verbatim>\<open>meta\<close> before anything is sent: \<^verbatim>\<open>!meta.cacheControl\<close>
  holds for an absent and for an empty cache control.
\<close>

definition lacks :: "string option \<Rightarrow> bool" where
  "lacks v = (case v of None \<Rightarrow> True | Some s \<Rightarrow> s = '''')"

definition empty_meta :: file_metadata where
  "empty_meta = \<lparr>contentType = None, cacheControl = None, acl = None, metadata = None\<rparr>"

definition activate_meta :: "options \<Rightarrow> file_metadata" where
  "activate_meta opts =
     (let m0 = (case meta opts of None \<Rightarrow> empty_meta | Some m \<Rightarrow> m);
          m1 = (if lacks (cacheControl m0)
                then m0\<lparr>cacheControl := Some ''max-age=0, no-cache''\<rparr> else m0);
          m2 = (case metadata m1 of None \<Rightarrow> m1\<lparr>metadata := Some []\<rparr> | Some kvs \<Rightarrow> m1)
      in m2\<lparr>metadata :=
              Some (AList.update ''revision'' (revisionKey opts)
                      (case metadata m2 of None \<Rightarrow> [] | Some kvs \<Rightarrow> kvs))\<rparr>)"

definition activated_line :: "options \<Rightarrow> log_entry" where
  "activated_line opts =
     LogMessage (check_mark @ upload_key opts @ '' => '' @ indexKey_of opts)"

definition set_index_metadata :: "env \<Rightarrow> options \<Rightarrow> string \<Rightarrow> world \<Rightarrow> unit promise \<times> world" where
  "set_index_metadata e opts key w =
     (case file_setMetadata e (bucket opts) key (activate_meta opts) w of
        (Inl err, w1) \<Rightarrow> (Rejected err, w1)
      | (Inr u, w1) \<Rightarrow> (Resolved (), plugin_log (activated_line opts) w1))"

definition revision_not_found :: error where
  "revision_not_found = Message ''REVISION NOT FOUND!''"

definition activate :: "env \<Rightarrow> options \<Rightarrow> world \<Rightarrow> unit promise \<times> world" where
  "activate e opts w =
     (case fetchRevisions e opts w of
        (Crashed, w1) \<Rightarrow> (Crashed, w1)
      | (Rejected err, w1) \<Rightarrow> (Rejected err, w1)
      | (Resolved revisions, w1) \<Rightarrow>
          (if arr_indexOf (map revision revisions) (revisionKey opts) \<ge> 0
           then
             (case file_copy e (bucket opts) (upload_key opts) (indexKey_of opts) w1 of
                (Inl err, w2) \<Rightarrow> (Rejected err, w2)
              | (Inr copied, w2) \<Rightarrow>
                  (if makePublic opts
                   then
                     (case file_makePublic e (bucket opts) copied w2 of
                        (Inl err, w3) \<Rightarrow> (Resolved (), plugin_log (LogError err) w3)
                      | (Inr u, w3) \<Rightarrow> set_index_metadata e opts copied w3)
                   else set_index_metadata e opts copied w2))
           else (Rejected revision_not_found, w1)))"

section \<open>Notions used in the statements\<close>

text \<open>The order the comparator of \<open>fetchRevisions\<close> asks for: newer files first.\<close>

definition newer_first :: "gcs_file \<Rightarrow> gcs_file \<Rightarrow> bool" where
  "newer_first a b = (updated (resource a) \<ge> updated (resource b))"

text \<open>
  \<open>fetchRevisions\<close> sends its two requests whatever they answer; \<open>fetch_world\<close> is the
  world after them and \<open>fetch_result\<close> the promise, read off the unchanged objects.
\<close>

definition fetch_world :: "options \<Rightarrow> world \<Rightarrow> world" where
  "fetch_world opts w =
     record_call (GetMetadata (bucket opts) (indexKey_of opts))
       (record_call (GetFiles (bucket opts) (revisionPrefix_of opts)) w)"

definition fetch_result :: "env \<Rightarrow> options \<Rightarrow> world \<Rightarrow> revision list promise" where
  "fetch_result e opts w =
     (case rsvp_hash (current_settles_first e)
             (fst (bucket_getFiles e (bucket opts) (revisionPrefix_of opts) w))
             (current_promise (fst (file_getMetadata e (bucket opts) (indexKey_of opts) w))) of
        Inl err \<Rightarrow> Rejected err
      | Inr data \<Rightarrow>
          (case sort_and_map (revisionPrefix_of opts) (fst data) (snd data) of
             Inl err \<Rightarrow> Rejected err
           | Inr revs \<Rightarrow> Resolved revs))"

text \<open>
  The revision \<open>fetchRevisions\<close> makes of a listed file when the index object records the
  revision \<open>key\<close>.
\<close>

definition flagged :: "string \<Rightarrow> string \<Rightarrow> gcs_file \<Rightarrow> revision" where
  "flagged revisionPrefix key d =
     \<lparr>revision = substr (name d) (length revisionPrefix),
      timestamp = updated (resource d),
      active = Some (str_indexOf (name d) key \<ge> 0)\<rparr>"

text \<open>The requests \<open>activate\<close> can send after its listing.\<close>

definition activate_requests :: "options \<Rightarrow> call set" where
  "activate_requests opts =
     {Copy (bucket opts) (upload_key opts) (indexKey_of opts),
      MakePublic (bucket opts) (indexKey_of opts),
      SetMetadata (bucket opts) (indexKey_of opts) (activate_meta opts)}"

text \<open>
  The index object after \<open>activate\<close> has copied the revision object \<open>ob\<close> and written the
  metadata, with \<open>makePublic\<close> off.
\<close>

definition stamped_copy :: "env \<Rightarrow> options \<Rightarrow> gcs_object \<Rightarrow> gcs_object" where
  "stamped_copy e opts ob =
     ob\<lparr>public_read := False, updated := now e,
        props := patch (activate_meta opts) (props ob)\<rparr>"

section \<open>Example inputs\<close>

text \<open>
  A service without failures and one that refuses the ACL request.
\<close>

definition no_faults :: env where
  "no_faults =
     \<lparr>getFiles_error = None, getMetadata_error = None, current_settles_first = False,
      write_error = None, copy_error = None, makePublic_error = None,
      setMetadata_error = None, now = 100,
      local_files = [(''tmp/index.html'', ''<html></html>'')],
      mime_lookup = (\<lambda>p. if p = ''tmp/index.html'' then Some ''text/html'' else None)\<rparr>"

definition acl_fails :: env where
  "acl_fails = no_faults\<lparr>makePublic_error := Some (ApiError ''403'')\<rparr>"

text \<open>
  An object as \<open>upload\<close> writes it, without custom metadata, and an index object whose
  custom metadata records a revision key.
\<close>

definition plain_object :: "string \<Rightarrow> int \<Rightarrow> gcs_object" where
  "plain_object content t =
     \<lparr>body = content, gzipped = False, public_read = False, updated = t,
      props = \<lparr>contentType = Some ''text/html'', cacheControl = Some ''max-age=0, no-cache'',
               acl = None, metadata = None\<rparr>\<rparr>"

definition index_object :: "string \<Rightarrow> gcs_object" where
  "index_object key =
     \<lparr>body = ''i'', gzipped = False, public_read = False, updated = 50,
      props = \<lparr>contentType = Some ''text/html'', cacheControl = Some ''max-age=0, no-cache'',
               acl = None, metadata = Some [(''revision'', key)]\<rparr>\<rparr>"

text \<open>
  A bucket with three revisions of \<^verbatim>\<open>index.html\<close>, written in the order 2, 3, 1, beside
  another object, with the index object recording the oldest revision; the same bucket
  before the first activation, with no index object; and a bucket with two revisions, the
  key of one a prefix of the key of the other.
\<close>

definition three_revisions :: world where
  "three_revisions =
     \<lparr>objects =
        [((''site'', ''index.html:bbb''), plain_object ''b'' 2),
         ((''site'', ''index.html:ccc''), plain_object ''c'' 3),
         ((''site'', ''index.html:aaa''), plain_object ''a'' 1),
         ((''site'', ''robots.txt''), plain_object ''r'' 7),
         ((''site'', ''index.html''), index_object ''aaa'')],
      calls = [], logged = []\<rparr>"

definition first_deploy :: world where
  "first_deploy =
     \<lparr>objects =
        [((''site'', ''index.html:bbb''), plain_object ''b'' 2),
         ((''site'', ''index.html:ccc''), plain_object ''c'' 3),
         ((''site'', ''index.html:aaa''), plain_object ''a'' 1),
         ((''site'', ''robots.txt''), plain_object ''r'' 7)],
      calls = [], logged = []\<rparr>"

definition two_revisions :: world where
  "two_revisions =
     \<lparr>objects =
        [((''site'', ''index.html:abc''), plain_object ''1'' 1),
         ((''site'', ''index.html:abcd''), plain_object ''2'' 2),
         ((''site'', ''index.html''), index_object ''abcd'')],
      calls = [], logged = []\<rparr>"

text \<open>
  The options of a deployment of \<^verbatim>\<open>index.html\<close> without prefix, and the same with
  \<open>makePublic\<close> on, with a list of gzipped patterns and an ACL, and with a \<open>meta\<close> of the
  caller's.
\<close>

definition index_options :: "string \<Rightarrow> options" where
  "index_options key =
     \<lparr>bucket = ''site'', prefix' = '''', filePattern = ''index.html'', revisionKey = key,
      filePath = ''tmp/index.html'', acl_opt = None, allowOverwrite = False,
      gzippedFilePaths = None, meta = None, makePublic = False\<rparr>"

definition public_options :: "string \<Rightarrow> options" where
  "public_options key = (index_options key)\<lparr>makePublic := True\<rparr>"

definition gzip_options :: "string \<Rightarrow> options" where
  "gzip_options key =
     (index_options key)\<lparr>gzippedFilePaths := Some [''app.js'', ''index.html''],
                          acl_opt := Some ''public-read''\<rparr>"

definition meta_options :: options where
  "meta_options =
     (index_options ''ccc'')
       \<lparr>meta := Some \<lparr>contentType = None, cacheControl = Some ''public, max-age=60'',
                      acl = None, metadata = Some [(''owner'', ''ops''), (''revision'', ''old'')]\<rparr>\<rparr>"

section \<open>Library facts\<close>

lemma indexOf_from_nonneg: "indexOf_from i s t \<ge> 0 \<longleftrightarrow> sublist t s"
  by (induction s arbitrary: i) (auto simp: sublist_Cons_right)

lemma str_indexOf_nonneg: "str_indexOf s t \<ge> 0 \<longleftrightarrow> sublist t s"
  by (simp add: str_indexOf_def indexOf_from_nonneg)

lemma arr_indexOf_from_nonneg: "arr_indexOf_from i xs x \<ge> 0 \<longleftrightarrow> x \<in> set xs"
  by (induction xs arbitrary: i) auto

lemma arr_indexOf_nonneg: "arr_indexOf xs x \<ge> 0 \<longleftrightarrow> x \<in> set xs"
  by (simp add: arr_indexOf_def arr_indexOf_from_nonneg)

lemma arr_indexOf_from_minus: "arr_indexOf_from i xs x \<noteq> - 1 \<longleftrightarrow> x \<in> set xs"
  by (induction xs arbitrary: i) auto

lemma arr_indexOf_minus: "arr_indexOf xs x \<noteq> - 1 \<longleftrightarrow> x \<in> set xs"
  by (simp add: arr_indexOf_def arr_indexOf_from_minus)

lemma set_insert_by: "set (insert_by cmp x xs) = insert x (set xs)"
  by (induction xs) auto

lemma mset_insert_by: "mset (insert_by cmp x xs) = add_mset x (mset xs)"
  by (induction xs) auto

lemma mset_array_sort: "mset (array_sort cmp xs) = mset xs"
  by (induction xs) (auto simp: array_sort_def mset_insert_by)

lemma set_array_sort: "set (array_sort cmp xs) = set xs"
  by (metis mset_array_sort set_mset_mset)

lemma sorted_insert_by:
  "sorted_wrt newer_first xs \<Longrightarrow> sorted_wrt newer_first (insert_by by_updated_desc x xs)"
  by (induction xs) (auto simp: set_insert_by newer_first_def by_updated_desc_def)

lemma sorted_array_sort: "sorted_wrt newer_first (array_sort by_updated_desc xs)"
  by (induction xs) (auto simp: array_sort_def sorted_insert_by)

lemma list_all2_map_eq: "list_all2 (\<lambda>x y. f x = g y) xs ys \<Longrightarrow> map g ys = map f xs"
  by (induction rule: list_all2_induct) auto

lemma map_throwing_Inr:
  "map_throwing f xs = Inr ys \<Longrightarrow> list_all2 (\<lambda>x y. f x = Inr y) xs ys"
  by (induction xs arbitrary: ys) (auto split: sum.splits)

lemma map_throwing_total:
  "(\<And>x. x \<in> set xs \<Longrightarrow> f x = Inr (g x)) \<Longrightarrow> map_throwing f xs = Inr (map g xs)"
  by (induction xs) auto

section \<open>Keys\<close>

lemma revisionPrefix_of_indexKey: "revisionPrefix_of opts = indexKey_of opts @ '':''"
  by (simp add: revisionPrefix_of_def indexKey_of_def joinUriSegments_def)

lemma upload_key_revisionPrefix: "upload_key opts = revisionPrefix_of opts @ revisionKey opts"
  by (simp add: revisionPrefix_of_def upload_key_def joinUriSegments_def)

lemma indexKey_not_listed: "\<not> prefix (revisionPrefix_of opts) (indexKey_of opts)"
proof
  assume "prefix (revisionPrefix_of opts) (indexKey_of opts)"
  then have "length (revisionPrefix_of opts) \<le> length (indexKey_of opts)"
    by (rule prefix_length_le)
  then show False
    by (simp add: revisionPrefix_of_indexKey)
qed

section \<open>Requests and the world\<close>

lemma objects_record_call [simp]: "objects (record_call c w) = objects w"
  by (simp add: record_call_def)

lemma logged_record_call [simp]: "logged (record_call c w) = logged w"
  by (simp add: record_call_def)

lemma calls_record_call [simp]: "calls (record_call c w) = calls w @ [c]"
  by (simp add: record_call_def)

lemma calls_put_object [simp]: "calls (put_object bkt key ob w) = calls w"
  by (simp add: put_object_def)

lemma logged_put_object [simp]: "logged (put_object bkt key ob w) = logged w"
  by (simp add: put_object_def)

lemma objects_put_object [simp]:
  "objects (put_object bkt key ob w) = AList.update (bkt, key) ob (objects w)"
  by (simp add: put_object_def)

lemma calls_plugin_log [simp]: "calls (plugin_log l w) = calls w"
  by (simp add: plugin_log_def)

lemma objects_plugin_log [simp]: "objects (plugin_log l w) = objects w"
  by (simp add: plugin_log_def)

lemma logged_plugin_log [simp]: "logged (plugin_log l w) = logged w @ [l]"
  by (simp add: plugin_log_def)

lemma snd_bucket_getFiles [simp]:
  "snd (bucket_getFiles e bkt pfx w) = record_call (GetFiles bkt pfx) w"
  by (simp add: bucket_getFiles_def split: option.splits)

lemma snd_file_getMetadata [simp]:
  "snd (file_getMetadata e bkt key w) = record_call (GetMetadata bkt key) w"
  by (simp add: file_getMetadata_def split: option.splits prod.splits)

lemma fst_file_getMetadata_record_call [simp]:
  "fst (file_getMetadata e bkt key (record_call c w)) = fst (file_getMetadata e bkt key w)"
  by (simp add: file_getMetadata_def split: option.splits prod.splits)

lemma listing_update:
  "\<not> prefix pfx key \<Longrightarrow> listing bkt pfx (AList.update (b, key) ob objs) = listing bkt pfx objs"
  by (induction objs) (auto simp: listing_def)

lemma listing_prefix: "d \<in> set (listing bkt pfx objs) \<Longrightarrow> prefix pfx (name d)"
  by (auto simp: listing_def)

lemma calls_pipe_file:
  "calls (snd (pipe_file e path bkt key params w)) = calls w @ [CreateWriteStream bkt key params]"
  by (simp add: pipe_file_def split: option.splits)

lemma pipe_file_finish:
  assumes "map_of (local_files e) path = Some content" and "write_error e = None"
  shows "pipe_file e path bkt key params w =
     (Inr (),
      put_object bkt key
        \<lparr>body = content, gzipped = (params_gzip params = Some True),
         public_read = False, updated = now e, props = params_metadata params\<rparr>
        (record_call (CreateWriteStream bkt key params) w))"
  using assms by (simp add: pipe_file_def)

lemma pipe_file_Inr:
  assumes "pipe_file e path bkt key params w = (Inr u, w')"
  shows "\<exists>content. map_of (local_files e) path = Some content \<and>
     w' = put_object bkt key
        \<lparr>body = content, gzipped = (params_gzip params = Some True),
         public_read = False, updated = now e, props = params_metadata params\<rparr>
        (record_call (CreateWriteStream bkt key params) w)"
  using assms by (auto simp: pipe_file_def split: option.splits)

lemma calls_file_copy:
  "calls (snd (file_copy e bkt src dst w)) = calls w @ [Copy bkt src dst]"
  by (simp add: file_copy_def split: option.splits)

lemma calls_file_makePublic:
  "calls (snd (file_makePublic e bkt key w)) = calls w @ [MakePublic bkt key]"
  by (simp add: file_makePublic_def split: option.splits)

lemma calls_file_setMetadata:
  "calls (snd (file_setMetadata e bkt key m w)) = calls w @ [SetMetadata bkt key m]"
  by (simp add: file_setMetadata_def split: option.splits)

lemma file_copy_Inr:
  assumes "file_copy e bkt src dst w = (Inr copied, w')"
  shows "copied = dst \<and> (\<exists>ob. map_of (objects w) (bkt, src) = Some ob \<and>
           w' = put_object bkt dst (ob\<lparr>public_read := False, updated := now e\<rparr>)
                  (record_call (Copy bkt src dst) w))"
  using assms by (auto simp: file_copy_def split: option.splits)

lemma file_makePublic_Inl:
  assumes "file_makePublic e bkt key w = (Inl err, w')"
  shows "w' = record_call (MakePublic bkt key) w"
  using assms by (auto simp: file_makePublic_def split: option.splits)

lemma file_makePublic_ok:
  assumes "makePublic_error e = None" and "map_of (objects w) (bkt, key) = Some ob"
  shows "file_makePublic e bkt key w =
     (Inr (), put_object bkt key (ob\<lparr>public_read := True\<rparr>) (record_call (MakePublic bkt key) w))"
  using assms by (simp add: file_makePublic_def)

section \<open>Steps of fetchRevisions\<close>

lemma to_revision_timestamp:
  "to_revision rp cur d = Inr r \<Longrightarrow> timestamp r = updated (resource d)"
  by (auto simp: to_revision_def split: option.splits sum.splits)

lemma to_revision_revision:
  "to_revision rp cur d = Inr r \<Longrightarrow> revision r = drop (length rp) (name d)"
  by (auto simp: to_revision_def substr_def split: option.splits sum.splits)

lemma sort_and_map_timestamps:
  assumes "sort_and_map rp files cur = Inr revs"
  shows "map timestamp revs = map (\<lambda>d. updated (resource d)) (array_sort by_updated_desc files)"
proof -
  have "list_all2 (\<lambda>d r. to_revision rp cur d = Inr r) (array_sort by_updated_desc files) revs"
    using assms by (simp add: sort_and_map_def map_throwing_Inr)
  then have "list_all2 (\<lambda>d r. updated (resource d) = timestamp r) (array_sort by_updated_desc files) revs"
    by (rule list_all2_mono) (simp add: to_revision_timestamp)
  then show ?thesis
    by (simp add: list_all2_conv_all_nth list_eq_iff_nth_eq)
qed

lemma sort_and_map_revisions:
  assumes "sort_and_map rp files cur = Inr revs"
  shows "map revision revs = map (\<lambda>d. drop (length rp) (name d)) (array_sort by_updated_desc files)"
proof -
  have "list_all2 (\<lambda>d r. to_revision rp cur d = Inr r) (array_sort by_updated_desc files) revs"
    using assms by (simp add: sort_and_map_def map_throwing_Inr)
  then have "list_all2 (\<lambda>d r. drop (length rp) (name d) = revision r)
               (array_sort by_updated_desc files) revs"
    by (rule list_all2_mono) (simp add: to_revision_revision)
  then show ?thesis
    by (simp add: list_all2_map_eq)
qed

lemma sort_and_map_no_current:
  "sort_and_map rp files None =
     Inr (map (\<lambda>d. \<lparr>revision = substr (name d) (length rp),
                     timestamp = updated (resource d), active = None\<rparr>)
            (array_sort by_updated_desc files))"
  unfolding sort_and_map_def
  by (rule map_throwing_total) (simp add: to_revision_def)

lemma recorded_revision_stamped:
  assumes "metadata (props ob) = Some kvs" and "map_of kvs ''revision'' = Some k"
  shows "recorded_revision ob = Inr k"
  using assms by (simp add: recorded_revision_def)

lemma sort_and_map_current:
  assumes "recorded_revision cur = Inr key"
  shows "sort_and_map rp files (Some cur) =
     Inr (map (flagged rp key) (array_sort by_updated_desc files))"
  unfolding sort_and_map_def
  by (rule map_throwing_total) (simp add: to_revision_def flagged_def assms)

lemma flagged_listed:
  assumes "prefix rp (name d)"
  shows "rp @ revision (flagged rp key d) = name d"
    and "active (flagged rp key d) = Some (sublist key (rp @ revision (flagged rp key d)))"
proof -
  show n: "rp @ revision (flagged rp key d) = name d"
    using assms by (auto simp: flagged_def substr_def prefix_def)
  show "active (flagged rp key d) = Some (sublist key (rp @ revision (flagged rp key d)))"
    unfolding n by (simp add: flagged_def str_indexOf_nonneg)
qed

lemma fetchRevisions_eq: "fetchRevisions e opts w = (fetch_result e opts w, fetch_world opts w)"
proof -
  obtain l w1 where l: "bucket_getFiles e (bucket opts) (revisionPrefix_of opts) w = (l, w1)"
    by (cases "bucket_getFiles e (bucket opts) (revisionPrefix_of opts) w")
  obtain g w2 where g: "file_getMetadata e (bucket opts) (indexKey_of opts) w1 = (g, w2)"
    by (cases "file_getMetadata e (bucket opts) (indexKey_of opts) w1")
  have w1: "w1 = record_call (GetFiles (bucket opts) (revisionPrefix_of opts)) w"
    using l snd_bucket_getFiles [of e "bucket opts" "revisionPrefix_of opts" w] by simp
  have w2: "w2 = fetch_world opts w"
    using g snd_file_getMetadata [of e "bucket opts" "indexKey_of opts" w1]
    by (simp add: fetch_world_def w1)
  have g': "fst (file_getMetadata e (bucket opts) (indexKey_of opts) w) = g"
    using g fst_file_getMetadata_record_call
      [of e "bucket opts" "indexKey_of opts" "GetFiles (bucket opts) (revisionPrefix_of opts)" w]
    by (simp add: w1)
  show ?thesis
    by (simp add: fetchRevisions_def fetch_result_def l g g' w2 split: sum.splits)
qed

lemma fetch_result_Resolved:
  assumes "fetch_result e opts w = Resolved revs"
  shows "\<exists>cur. current_promise (fst (file_getMetadata e (bucket opts) (indexKey_of opts) w)) = Inr cur \<and>
           sort_and_map (revisionPrefix_of opts)
             (listing (bucket opts) (revisionPrefix_of opts) (objects w)) cur = Inr revs"
  using assms
  by (auto simp: fetch_result_def bucket_getFiles_def rsvp_hash_def
      split: option.splits sum.splits)

lemma calls_fetch_world:
  "calls (fetch_world opts w) =
     calls w @ [GetFiles (bucket opts) (revisionPrefix_of opts),
                GetMetadata (bucket opts) (indexKey_of opts)]"
  by (simp add: fetch_world_def)

lemma objects_fetch_world [simp]: "objects (fetch_world opts w) = objects w"
  by (simp add: fetch_world_def)

lemma logged_fetch_world [simp]: "logged (fetch_world opts w) = logged w"
  by (simp add: fetch_world_def)

lemma fetchRevisions_world:
  "fetchRevisions e opts w = (r, w1) \<Longrightarrow> w1 = fetch_world opts w"
  by (simp add: fetchRevisions_eq)

lemma fetch_with_index:
  assumes "getFiles_error e = None" and "getMetadata_error e = None"
    and "map_of (objects w) (bucket opts, indexKey_of opts) = Some cur"
    and "recorded_revision cur = Inr key"
  shows "fetchRevisions e opts w =
     (Resolved (map (flagged (revisionPrefix_of opts) key)
                  (array_sort by_updated_desc
                     (listing (bucket opts) (revisionPrefix_of opts) (objects w)))),
      fetch_world opts w)"
  using assms
  by (simp add: fetchRevisions_eq fetch_result_def bucket_getFiles_def file_getMetadata_def
      rsvp_hash_def current_promise_def sort_and_map_current)

lemma fetch_index_absent:
  assumes "getFiles_error e = None" and "getMetadata_error e = None"
    and "map_of (objects w) (bucket opts, indexKey_of opts) = None"
  shows "fetchRevisions e opts w = (Rejected not_found, fetch_world opts w)"
  using assms
  by (simp add: fetchRevisions_eq fetch_result_def bucket_getFiles_def file_getMetadata_def
      rsvp_hash_def current_promise_def is_404_def)

lemma fetch_index_bare:
  assumes "getFiles_error e = None" and "getMetadata_error e = None"
    and "map_of (objects w) (bucket opts, indexKey_of opts) = Some cur"
    and "metadata (props cur) = None"
    and "listing (bucket opts) (revisionPrefix_of opts) (objects w) \<noteq> []"
  shows "fetchRevisions e opts w = (Rejected TypeError, fetch_world opts w)"
proof -
  let ?files = "array_sort by_updated_desc
                  (listing (bucket opts) (revisionPrefix_of opts) (objects w))"
  have "set ?files \<noteq> {}"
    using assms(5) by (simp add: set_array_sort)
  then obtain d ds where "?files = d # ds"
    by (cases ?files) simp_all
  then have "sort_and_map (revisionPrefix_of opts)
               (listing (bucket opts) (revisionPrefix_of opts) (objects w)) (Some cur)
             = Inl TypeError"
    using assms(4) by (simp add: sort_and_map_def to_revision_def recorded_revision_def)
  then show ?thesis
    using assms(1-3)
    by (simp add: fetchRevisions_eq fetch_result_def bucket_getFiles_def file_getMetadata_def
        rsvp_hash_def current_promise_def)
qed


lemma fetchRevisions_settles:
  assumes "bucket_getFiles e (bucket opts) (revisionPrefix_of opts) w = (listed, w1)"
    and "file_getMetadata e (bucket opts) (indexKey_of opts) w1 = (got, w2)"
  shows "(\<forall>err resp files. got = GetMetadataError err resp \<and> is_404 resp \<and> listed = Inr files \<longrightarrow>
            (\<exists>revs. fetchRevisions e opts w = (Resolved revs, w2) \<and>
               length revs = length files \<and> (\<forall>r \<in> set revs. active r = None))) \<and>
         (\<forall>err. listed = Inl err \<and> (\<forall>err' resp. got = GetMetadataError err' resp \<longrightarrow> is_404 resp) \<longrightarrow>
            fetchRevisions e opts w = (Rejected err, w2)) \<and>
         (\<forall>err resp files. got = GetMetadataError err resp \<and> \<not> is_404 resp \<and> listed = Inr files \<longrightarrow>
            fetchRevisions e opts w = (Rejected err, w2)) \<and>
         (\<forall>err err' resp. listed = Inl err \<and> got = GetMetadataError err' resp \<and> \<not> is_404 resp \<longrightarrow>
            fetchRevisions e opts w =
              (Rejected (if current_settles_first e then err' else err), w2))"
proof -
  have a: "\<exists>revs. fetchRevisions e opts w = (Resolved revs, w2) \<and>
               length revs = length files \<and> (\<forall>r \<in> set revs. active r = None)"
    if "got = GetMetadataError err resp" "is_404 resp" "listed = Inr files" for err resp files
  proof -
    let ?revs = "map (\<lambda>d. \<lparr>revision = substr (name d) (length (revisionPrefix_of opts)),
                     timestamp = updated (resource d), active = None\<rparr>)
            (array_sort by_updated_desc files)"
    have "fetchRevisions e opts w = (Resolved ?revs, w2)"
      using assms that
      by (simp add: fetchRevisions_def rsvp_hash_def current_promise_def sort_and_map_no_current)
    moreover have "length ?revs = length files"
      using mset_array_sort [of by_updated_desc files] by (metis length_map size_mset)
    moreover have "\<forall>r \<in> set ?revs. active r = None"
      by auto
    ultimately show ?thesis by blast
  qed
  have b: "fetchRevisions e opts w = (Rejected err, w2)"
    if "listed = Inl err" "\<forall>err' resp. got = GetMetadataError err' resp \<longrightarrow> is_404 resp" for err
    using assms that
    by (cases got) (simp_all add: fetchRevisions_def rsvp_hash_def current_promise_def)
  have c: "fetchRevisions e opts w = (Rejected err, w2)"
    if "got = GetMetadataError err resp" "\<not> is_404 resp" "listed = Inr files" for err resp files
    using assms that
    by (simp add: fetchRevisions_def rsvp_hash_def current_promise_def)
  have d: "fetchRevisions e opts w = (Rejected (if current_settles_first e then err' else err), w2)"
    if "listed = Inl err" "got = GetMetadataError err' resp" "\<not> is_404 resp" for err err' resp
    using assms that
    by (simp add: fetchRevisions_def rsvp_hash_def current_promise_def)
  from a b c d show ?thesis by blast
qed

section \<open>Steps of upload\<close>

lemma upload_rejected:
  assumes "fetchRevisions e opts w = (Resolved revisions, w1)"
    and "revisionKey opts \<in> set (map revision revisions)" and "\<not> allowOverwrite opts"
  shows "upload e opts w = (Rejected already_uploaded, w1)"
  using assms by (simp add: upload_def arr_indexOf_nonneg)

lemma upload_proceeds:
  assumes "fetchRevisions e opts w = (Resolved revisions, w1)"
    and "allowOverwrite opts \<or> revisionKey opts \<notin> set (map revision revisions)"
  shows "upload e opts w =
     (case pipe_file e (filePath opts) (bucket opts) (upload_key opts) (upload_params e opts) w1 of
        (Inl None, w2) \<Rightarrow> (Crashed, w2)
      | (Inl (Some err), w2) \<Rightarrow> (Rejected err, w2)
      | (Inr u, w2) \<Rightarrow> (Resolved (), plugin_log (LogVerbose (check_mark @ upload_key opts)) w2))"
  using assms by (auto simp: upload_def arr_indexOf_nonneg)

lemma upload_proceeds_calls:
  assumes "fetchRevisions e opts w = (Resolved revisions, w1)"
    and "allowOverwrite opts \<or> revisionKey opts \<notin> set (map revision revisions)"
  shows "calls (snd (upload e opts w)) =
     calls w1 @ [CreateWriteStream (bucket opts) (upload_key opts) (upload_params e opts)]"
proof -
  let ?p = "pipe_file e (filePath opts) (bucket opts) (upload_key opts) (upload_params e opts) w1"
  have "calls (snd (upload e opts w)) = calls (snd ?p)"
    by (cases ?p) (auto simp: upload_proceeds [OF assms] split: sum.splits option.splits)
  then show ?thesis by (simp add: calls_pipe_file)
qed

lemma upload_calls:
  "calls (snd (upload e opts w)) = calls (fetch_world opts w) \<or>
   calls (snd (upload e opts w)) =
     calls (fetch_world opts w) @
       [CreateWriteStream (bucket opts) (upload_key opts) (upload_params e opts)]"
proof (cases "fetch_result e opts w")
  case (Resolved revisions)
  then have f: "fetchRevisions e opts w = (Resolved revisions, fetch_world opts w)"
    by (simp add: fetchRevisions_eq)
  show ?thesis
  proof (cases "revisionKey opts \<in> set (map revision revisions) \<and> \<not> allowOverwrite opts")
    case True
    then show ?thesis
      using upload_rejected [OF f] by simp
  next
    case False
    then have "allowOverwrite opts \<or> revisionKey opts \<notin> set (map revision revisions)"
      by blast
    then show ?thesis
      using upload_proceeds_calls [OF f] by simp
  qed
next
  case (Rejected err)
  then show ?thesis
    by (simp add: upload_def fetchRevisions_eq)
next
  case Crashed
  then show ?thesis
    by (simp add: upload_def fetchRevisions_eq)
qed

lemma upload_Resolved:
  assumes "upload e opts w = (Resolved (), w')"
  shows "\<exists>content. map_of (local_files e) (filePath opts) = Some content \<and>
     objects w' = AList.update (bucket opts, upload_key opts)
        \<lparr>body = content, gzipped = (params_gzip (upload_params e opts) = Some True),
         public_read = False, updated = now e, props = params_metadata (upload_params e opts)\<rparr>
        (objects w)"
proof (cases "fetch_result e opts w")
  case (Resolved revisions)
  then have f: "fetchRevisions e opts w = (Resolved revisions, fetch_world opts w)"
    by (simp add: fetchRevisions_eq)
  let ?p = "pipe_file e (filePath opts) (bucket opts) (upload_key opts) (upload_params e opts)
              (fetch_world opts w)"
  have go: "allowOverwrite opts \<or> revisionKey opts \<notin> set (map revision revisions)"
    using assms upload_rejected [OF f] by auto
  obtain r w2 where p: "?p = (r, w2)"
    by (cases ?p)
  have "r = Inr ()" and w': "w' = plugin_log (LogVerbose (check_mark @ upload_key opts)) w2"
    using assms by (auto simp: upload_proceeds [OF f go] p split: sum.splits option.splits)
  with p have "?p = (Inr (), w2)" by simp
  from pipe_file_Inr [OF this] show ?thesis
    by (auto simp: w')
next
  case (Rejected err)
  with assms show ?thesis
    by (simp add: upload_def fetchRevisions_eq)
next
  case Crashed
  with assms show ?thesis
    by (simp add: upload_def fetchRevisions_eq)
qed

lemma params_gzip_iff:
  "params_gzip (upload_params e opts) = Some True \<longleftrightarrow>
     (\<exists>ps. gzippedFilePaths opts = Some ps \<and> filePattern opts \<in> set ps)"
  by (cases "gzippedFilePaths opts")
    (simp_all add: upload_params_def isGzipped_def arr_indexOf_minus)

section \<open>Steps of activate\<close>

lemma activate_meta_fields:
  assumes "m0 = (case meta opts of None \<Rightarrow> empty_meta | Some m \<Rightarrow> m)"
  shows "contentType (activate_meta opts) = contentType m0"
    and "acl (activate_meta opts) = acl m0"
    and "cacheControl (activate_meta opts) =
           (if lacks (cacheControl m0) then Some ''max-age=0, no-cache'' else cacheControl m0)"
    and "metadata (activate_meta opts) =
           Some (AList.update ''revision'' (revisionKey opts)
                   (case metadata m0 of None \<Rightarrow> [] | Some kvs \<Rightarrow> kvs))"
  using assms by (simp_all add: activate_meta_def Let_def split: option.splits)

lemma cacheControl_activate_meta: "\<exists>c. cacheControl (activate_meta opts) = Some c"
  using activate_meta_fields(3) [OF refl, of opts]
  by (cases "cacheControl (case meta opts of None \<Rightarrow> empty_meta | Some m \<Rightarrow> m)")
    (simp_all add: lacks_def)

lemma patch_stamped:
  "\<exists>kvs. metadata (patch (activate_meta opts) old) = Some kvs \<and>
         map_of kvs ''revision'' = Some (revisionKey opts)"
proof -
  obtain kvs0 where m: "metadata (activate_meta opts) =
      Some (AList.update ''revision'' (revisionKey opts) kvs0)"
    using activate_meta_fields(4) [OF refl, of opts] by blast
  have "map_of (AList.merge al (AList.update ''revision'' (revisionKey opts) kvs0)) ''revision''
          = Some (revisionKey opts)" for al
    by (simp add: merge_conv' update_conv')
  then show ?thesis
    by (simp add: patch_def merge_custom_def m)
qed

lemma set_index_metadata_Resolved:
  assumes "set_index_metadata e opts key w = (Resolved (), w')"
  shows "\<exists>ob. map_of (objects w) (bucket opts, key) = Some ob \<and>
           w' = plugin_log (activated_line opts)
                  (put_object (bucket opts) key
                     (ob\<lparr>updated := now e, props := patch (activate_meta opts) (props ob)\<rparr>)
                     (record_call (SetMetadata (bucket opts) key (activate_meta opts)) w))"
  using assms
  by (auto simp: set_index_metadata_def file_setMetadata_def split: option.splits)

lemma calls_set_index_metadata:
  "calls (snd (set_index_metadata e opts key w)) =
     calls w @ [SetMetadata (bucket opts) key (activate_meta opts)]"
proof -
  obtain r w1 where r: "file_setMetadata e (bucket opts) key (activate_meta opts) w = (r, w1)"
    by (cases "file_setMetadata e (bucket opts) key (activate_meta opts) w")
  then have "calls w1 = calls w @ [SetMetadata (bucket opts) key (activate_meta opts)]"
    using calls_file_setMetadata [of e "bucket opts" key "activate_meta opts" w] by simp
  then show ?thesis
    by (cases r) (simp_all add: set_index_metadata_def r)
qed

lemma set_index_metadata_stamps:
  assumes "set_index_metadata e opts (indexKey_of opts) w = (Resolved (), w')"
  shows "listing (bucket opts) (revisionPrefix_of opts) (objects w') =
           listing (bucket opts) (revisionPrefix_of opts) (objects w) \<and>
         (\<exists>ob kvs. map_of (objects w') (bucket opts, indexKey_of opts) = Some ob \<and>
            metadata (props ob) = Some kvs \<and> map_of kvs ''revision'' = Some (revisionKey opts))"
proof -
  from set_index_metadata_Resolved [OF assms] obtain ob where
    w': "w' = plugin_log (activated_line opts)
                  (put_object (bucket opts) (indexKey_of opts)
                     (ob\<lparr>updated := now e, props := patch (activate_meta opts) (props ob)\<rparr>)
                     (record_call (SetMetadata (bucket opts) (indexKey_of opts) (activate_meta opts)) w))"
    by blast
  obtain kvs where "metadata (patch (activate_meta opts) (props ob)) = Some kvs"
    "map_of kvs ''revision'' = Some (revisionKey opts)"
    using patch_stamped by blast
  then show ?thesis
    by (simp add: w' listing_update [OF indexKey_not_listed] update_conv')
qed

lemma set_index_metadata_writes:
  assumes "set_index_metadata e opts (indexKey_of opts) w = (Resolved (), w')"
  shows "calls w' = calls w @ [SetMetadata (bucket opts) (indexKey_of opts) (activate_meta opts)] \<and>
         (\<exists>ob. map_of (objects w') (bucket opts, indexKey_of opts) = Some ob \<and>
            cacheControl (props ob) = cacheControl (activate_meta opts))"
proof -
  from set_index_metadata_Resolved [OF assms] obtain ob where
    w': "w' = plugin_log (activated_line opts)
                  (put_object (bucket opts) (indexKey_of opts)
                     (ob\<lparr>updated := now e, props := patch (activate_meta opts) (props ob)\<rparr>)
                     (record_call (SetMetadata (bucket opts) (indexKey_of opts) (activate_meta opts)) w))"
    by blast
  obtain c where "cacheControl (activate_meta opts) = Some c"
    using cacheControl_activate_meta by blast
  then have "cacheControl (patch (activate_meta opts) (props ob)) = cacheControl (activate_meta opts)"
    by (simp add: patch_def patch_field_def)
  then show ?thesis
    by (simp add: w' update_conv')
qed

lemma activate_found:
  assumes "fetchRevisions e opts w = (Resolved revisions, w1)"
    and "revisionKey opts \<in> set (map revision revisions)"
  shows "activate e opts w =
     (case file_copy e (bucket opts) (upload_key opts) (indexKey_of opts) w1 of
        (Inl err, w2) \<Rightarrow> (Rejected err, w2)
      | (Inr copied, w2) \<Rightarrow>
          (if makePublic opts
           then
             (case file_makePublic e (bucket opts) copied w2 of
                (Inl err, w3) \<Rightarrow> (Resolved (), plugin_log (LogError err) w3)
              | (Inr u, w3) \<Rightarrow> set_index_metadata e opts copied w3)
           else set_index_metadata e opts copied w2))"
  using assms by (simp add: activate_def arr_indexOf_nonneg)

lemma activate_calls:
  "\<exists>cs. calls (snd (activate e opts w)) = calls (fetch_world opts w) @ cs \<and>
        set cs \<subseteq> activate_requests opts"
proof (cases "fetch_result e opts w")
  case (Resolved revisions)
  then have f: "fetchRevisions e opts w = (Resolved revisions, fetch_world opts w)"
    by (simp add: fetchRevisions_eq)
  show ?thesis
  proof (cases "revisionKey opts \<in> set (map revision revisions)")
    case False
    then show ?thesis
      using f by (simp add: activate_def arr_indexOf_nonneg)
  next
    case True
    let ?i = "indexKey_of opts"
    let ?b = "bucket opts"
    let ?w1 = "fetch_world opts w"
    obtain r w2 where c: "file_copy e ?b (upload_key opts) ?i ?w1 = (r, w2)"
      by (cases "file_copy e ?b (upload_key opts) ?i ?w1")
    have w2: "calls w2 = calls ?w1 @ [Copy ?b (upload_key opts) ?i]"
      using calls_file_copy [of e ?b "upload_key opts" ?i ?w1] by (simp add: c)
    show ?thesis
    proof (cases r)
      case (Inl err)
      then show ?thesis
        by (simp add: activate_found [OF f True] c w2 activate_requests_def)
    next
      case (Inr copied)
      then have copied: "copied = ?i"
        using file_copy_Inr c by blast
      have s: "calls (snd (set_index_metadata e opts ?i w0)) =
                 calls w0 @ [SetMetadata ?b ?i (activate_meta opts)]" for w0
        by (rule calls_set_index_metadata)
      show ?thesis
      proof (cases "makePublic opts")
        case False
        then have "activate e opts w = set_index_metadata e opts ?i w2"
          by (simp add: activate_found [OF f True] c Inr copied)
        then show ?thesis
          by (simp add: s w2 activate_requests_def)
      next
        case True
        obtain r3 w3 where m: "file_makePublic e ?b ?i w2 = (r3, w3)"
          by (cases "file_makePublic e ?b ?i w2")
        have w3: "calls w3 = calls ?w1 @ [Copy ?b (upload_key opts) ?i, MakePublic ?b ?i]"
          using calls_file_makePublic [of e ?b ?i w2] by (simp add: m w2)
        show ?thesis
        proof (cases r3)
          case (Inl err)
          then have "activate e opts w = (Resolved (), plugin_log (LogError err) w3)"
            using \<open>makePublic opts\<close>
            by (simp add: activate_found [OF f \<open>revisionKey opts \<in> set (map revision revisions)\<close>]
                c Inr copied m)
          then show ?thesis
            by (simp add: w3 activate_requests_def)
        next
          case (Inr u)
          then have "activate e opts w = set_index_metadata e opts ?i w3"
            using \<open>makePublic opts\<close>
            by (simp add: activate_found [OF f \<open>revisionKey opts \<in> set (map revision revisions)\<close>]
                c \<open>r = Inr copied\<close> copied m)
          then show ?thesis
            by (simp add: s w3 activate_requests_def)
        qed
      qed
    qed
  qed
next
  case (Rejected err)
  then show ?thesis
    by (simp add: activate_def fetchRevisions_eq)
next
  case Crashed
  then show ?thesis
    by (simp add: activate_def fetchRevisions_eq)
qed

lemma activate_Resolved_found:
  assumes "activate e opts w = (Resolved (), w')"
  shows "\<exists>revisions. fetchRevisions e opts w = (Resolved revisions, fetch_world opts w) \<and>
           revisionKey opts \<in> set (map revision revisions)"
proof (cases "fetch_result e opts w")
  case (Resolved revisions)
  then have f: "fetchRevisions e opts w = (Resolved revisions, fetch_world opts w)"
    by (simp add: fetchRevisions_eq)
  have "revisionKey opts \<in> set (map revision revisions)"
  proof (rule ccontr)
    assume "revisionKey opts \<notin> set (map revision revisions)"
    then have "activate e opts w = (Rejected revision_not_found, fetch_world opts w)"
      using f by (simp add: activate_def arr_indexOf_nonneg)
    with assms show False by simp
  qed
  with f show ?thesis by blast
next
  case (Rejected err)
  with assms show ?thesis
    by (simp add: activate_def fetchRevisions_eq)
next
  case Crashed
  with assms show ?thesis
    by (simp add: activate_def fetchRevisions_eq)
qed

lemma activate_stamps:
  assumes "activate e opts w = (Resolved (), w')"
    and "\<not> makePublic opts \<or> makePublic_error e = None"
  shows "listing (bucket opts) (revisionPrefix_of opts) (objects w') =
           listing (bucket opts) (revisionPrefix_of opts) (objects w) \<and>
         (\<exists>ob kvs. map_of (objects w') (bucket opts, indexKey_of opts) = Some ob \<and>
            metadata (props ob) = Some kvs \<and> map_of kvs ''revision'' = Some (revisionKey opts))"
proof -
  let ?i = "indexKey_of opts"
  let ?b = "bucket opts"
  let ?rp = "revisionPrefix_of opts"
  let ?w1 = "fetch_world opts w"
  from activate_Resolved_found [OF assms(1)] obtain revisions where
    f: "fetchRevisions e opts w = (Resolved revisions, ?w1)" and
    k: "revisionKey opts \<in> set (map revision revisions)"
    by blast
  note a = activate_found [OF f k]
  obtain r w2 where c: "file_copy e ?b (upload_key opts) ?i ?w1 = (r, w2)"
    by (cases "file_copy e ?b (upload_key opts) ?i ?w1")
  have "\<exists>copied. r = Inr copied"
    using assms(1) by (cases r) (simp_all add: a c)
  then obtain copied where r: "r = Inr copied" by blast
  with c have c': "file_copy e ?b (upload_key opts) ?i ?w1 = (Inr copied, w2)" by simp
  from file_copy_Inr [OF c'] obtain ob where copied: "copied = ?i" and
    w2: "w2 = put_object ?b ?i (ob\<lparr>public_read := False, updated := now e\<rparr>)
                (record_call (Copy ?b (upload_key opts) ?i) ?w1)"
    by blast
  have l2: "listing ?b ?rp (objects w2) = listing ?b ?rp (objects w)"
    by (simp add: w2 listing_update [OF indexKey_not_listed])
  show ?thesis
  proof (cases "makePublic opts")
    case False
    then have "set_index_metadata e opts ?i w2 = (Resolved (), w')"
      using assms(1) by (simp add: a c' copied)
    from set_index_metadata_stamps [OF this] show ?thesis
      by (simp add: l2)
  next
    case True
    with assms(2) have ok: "makePublic_error e = None" by simp
    have "map_of (objects w2) (?b, ?i) = Some (ob\<lparr>public_read := False, updated := now e\<rparr>)"
      by (simp add: w2 update_conv')
    note m = file_makePublic_ok [OF ok this]
    let ?w3 = "put_object ?b ?i (ob\<lparr>public_read := False, updated := now e, public_read := True\<rparr>)
                 (record_call (MakePublic ?b ?i) w2)"
    have l3: "listing ?b ?rp (objects ?w3) = listing ?b ?rp (objects w)"
      by (simp add: listing_update [OF indexKey_not_listed] l2)
    have "set_index_metadata e opts ?i ?w3 = (Resolved (), w')"
      using assms(1) True by (simp add: a c' copied m)
    from set_index_metadata_stamps [OF this] show ?thesis
      by (simp only: l3)
  qed
qed

lemma activate_writes_meta:
  assumes "activate e opts w = (Resolved (), w')"
    and "\<not> makePublic opts \<or> makePublic_error e = None"
  shows "calls w' =
           calls w @ [GetFiles (bucket opts) (revisionPrefix_of opts),
                      GetMetadata (bucket opts) (indexKey_of opts),
                      Copy (bucket opts) (upload_key opts) (indexKey_of opts)]
             @ (if makePublic opts then [MakePublic (bucket opts) (indexKey_of opts)] else [])
             @ [SetMetadata (bucket opts) (indexKey_of opts) (activate_meta opts)] \<and>
         (\<exists>ob. map_of (objects w') (bucket opts, indexKey_of opts) = Some ob \<and>
            cacheControl (props ob) = cacheControl (activate_meta opts))"
proof -
  let ?i = "indexKey_of opts"
  let ?b = "bucket opts"
  let ?w1 = "fetch_world opts w"
  from activate_Resolved_found [OF assms(1)] obtain revisions where
    f: "fetchRevisions e opts w = (Resolved revisions, ?w1)" and
    k: "revisionKey opts \<in> set (map revision revisions)"
    by blast
  note a = activate_found [OF f k]
  obtain r w2 where c: "file_copy e ?b (upload_key opts) ?i ?w1 = (r, w2)"
    by (cases "file_copy e ?b (upload_key opts) ?i ?w1")
  have "\<exists>copied. r = Inr copied"
    using assms(1) by (cases r) (simp_all add: a c)
  then obtain copied where r: "r = Inr copied" by blast
  with c have c': "file_copy e ?b (upload_key opts) ?i ?w1 = (Inr copied, w2)" by simp
  from file_copy_Inr [OF c'] obtain ob where copied: "copied = ?i" and
    w2: "w2 = put_object ?b ?i (ob\<lparr>public_read := False, updated := now e\<rparr>)
                (record_call (Copy ?b (upload_key opts) ?i) ?w1)"
    by blast
  have c2: "calls w2 = calls w @ [GetFiles ?b (revisionPrefix_of opts), GetMetadata ?b ?i,
                                  Copy ?b (upload_key opts) ?i]"
    by (simp add: w2 calls_fetch_world)
  show ?thesis
  proof (cases "makePublic opts")
    case False
    then have "set_index_metadata e opts ?i w2 = (Resolved (), w')"
      using assms(1) by (simp add: a c' copied)
    from set_index_metadata_writes [OF this] show ?thesis
      using False by (simp add: c2)
  next
    case True
    with assms(2) have ok: "makePublic_error e = None" by simp
    have "map_of (objects w2) (?b, ?i) = Some (ob\<lparr>public_read := False, updated := now e\<rparr>)"
      by (simp add: w2 update_conv')
    note m = file_makePublic_ok [OF ok this]
    let ?w3 = "put_object ?b ?i (ob\<lparr>public_read := False, updated := now e, public_read := True\<rparr>)
                 (record_call (MakePublic ?b ?i) w2)"
    have c3: "calls ?w3 = calls w @ [GetFiles ?b (revisionPrefix_of opts), GetMetadata ?b ?i,
                                  Copy ?b (upload_key opts) ?i, MakePublic ?b ?i]"
      by (simp add: c2)
    have "set_index_metadata e opts ?i ?w3 = (Resolved (), w')"
      using assms(1) True by (simp add: a c' copied m)
    from set_index_metadata_writes [OF this] show ?thesis
      using True by (simp only: c3) simp
  qed
qed

lemma activate_plain_ok:
  assumes "fetchRevisions e opts w = (Resolved revisions, w1)"
    and "revisionKey opts \<in> set (map revision revisions)"
    and "\<not> makePublic opts" and "copy_error e = None" and "setMetadata_error e = None"
    and "map_of (objects w) (bucket opts, upload_key opts) = Some ob"
  shows "fst (activate e opts w) = Resolved () \<and>
         objects (snd (activate e opts w)) =
           AList.update (bucket opts, indexKey_of opts) (stamped_copy e opts ob)
             (AList.update (bucket opts, indexKey_of opts)
                (ob\<lparr>public_read := False, updated := now e\<rparr>) (objects w))"
proof -
  have w1: "w1 = fetch_world opts w"
    using assms(1) by (rule fetchRevisions_world)
  show ?thesis
    using assms(3-6)
    by (simp add: activate_found [OF assms(1,2)] w1 file_copy_def set_index_metadata_def
        file_setMetadata_def update_conv' stamped_copy_def)
qed

section \<open>The examples, evaluated\<close>

lemma fetch_three_gen:
  assumes "getFiles_error e = None" and "getMetadata_error e = None"
    and "bucket opts = ''site''" and "prefix' opts = ''''" and "filePattern opts = ''index.html''"
  shows "fetchRevisions e opts three_revisions =
     (Resolved [\<lparr>revision = ''ccc'', timestamp = 3, active = Some False\<rparr>,
                \<lparr>revision = ''bbb'', timestamp = 2, active = Some False\<rparr>,
                \<lparr>revision = ''aaa'', timestamp = 1, active = Some True\<rparr>],
      fetch_world opts three_revisions)"
  using assms
  by (simp add: fetchRevisions_eq fetch_result_def bucket_getFiles_def file_getMetadata_def
      rsvp_hash_def current_promise_def sort_and_map_def array_sort_def
      by_updated_desc_def to_revision_def recorded_revision_def str_indexOf_def substr_def
      listing_def three_revisions_def plain_object_def index_object_def revisionPrefix_of_def
      indexKey_of_def joinUriSegments_def)

lemma fetch_three:
  "fetchRevisions no_faults (index_options ''ccc'') three_revisions =
     (Resolved [\<lparr>revision = ''ccc'', timestamp = 3, active = Some False\<rparr>,
                \<lparr>revision = ''bbb'', timestamp = 2, active = Some False\<rparr>,
                \<lparr>revision = ''aaa'', timestamp = 1, active = Some True\<rparr>],
      fetch_world (index_options ''ccc'') three_revisions)"
  by (rule fetch_three_gen) (simp_all add: no_faults_def index_options_def)


lemma index_options_keys:
  "bucket (index_options k) = ''site''"
  "revisionPrefix_of (index_options k) = ''index.html:''"
  "indexKey_of (index_options k) = ''index.html''"
  "upload_key (index_options k) = ''index.html:'' @ k"
  by (simp_all add: index_options_def revisionPrefix_of_def indexKey_of_def upload_key_def
      joinUriSegments_def)

lemma fetch_three_any:
  "fetchRevisions no_faults (index_options k) three_revisions =
     (Resolved [\<lparr>revision = ''ccc'', timestamp = 3, active = Some False\<rparr>,
                \<lparr>revision = ''bbb'', timestamp = 2, active = Some False\<rparr>,
                \<lparr>revision = ''aaa'', timestamp = 1, active = Some True\<rparr>],
      fetch_world (index_options k) three_revisions)"
  by (rule fetch_three_gen) (simp_all add: no_faults_def index_options_def)

lemma index_options_fields:
  "revisionKey (index_options k) = k"
  "allowOverwrite (index_options k) = False"
  "filePath (index_options k) = ''tmp/index.html''"
  "filePattern (index_options k) = ''index.html''"
  "gzippedFilePaths (index_options k) = None"
  "acl_opt (index_options k) = None"
  "meta (index_options k) = None"
  "makePublic (index_options k) = False"
  by (simp_all add: index_options_def)

lemma no_faults_fields:
  "map_of (local_files no_faults) ''tmp/index.html'' = Some ''<html></html>''"
  "write_error no_faults = None"
  "copy_error no_faults = None"
  "makePublic_error no_faults = None"
  "setMetadata_error no_faults = None"
  "getFiles_error no_faults = None"
  "getMetadata_error no_faults = None"
  "now no_faults = 100"
  "mime_lookup no_faults ''tmp/index.html'' = Some ''text/html''"
  by (simp_all add: no_faults_def)

lemma public_options_keys:
  "bucket (public_options k) = ''site''"
  "revisionPrefix_of (public_options k) = ''index.html:''"
  "indexKey_of (public_options k) = ''index.html''"
  "upload_key (public_options k) = ''index.html:'' @ k"
  "revisionKey (public_options k) = k"
  "makePublic (public_options k)"
  "meta (public_options k) = None"
  by (simp_all add: public_options_def index_options_def revisionPrefix_of_def indexKey_of_def
      upload_key_def joinUriSegments_def)

lemma fetch_three_public:
  "fetchRevisions acl_fails (public_options k) three_revisions =
     (Resolved [\<lparr>revision = ''ccc'', timestamp = 3, active = Some False\<rparr>,
                \<lparr>revision = ''bbb'', timestamp = 2, active = Some False\<rparr>,
                \<lparr>revision = ''aaa'', timestamp = 1, active = Some True\<rparr>],
      fetch_world (public_options k) three_revisions)"
  by (rule fetch_three_gen)
    (simp_all add: acl_fails_def no_faults_def public_options_def index_options_def)

lemma copy_three_public:
  "file_copy acl_fails ''site'' ''index.html:ccc'' ''index.html''
     (fetch_world (public_options ''ccc'') three_revisions) =
   (Inr ''index.html'',
    put_object ''site'' ''index.html'' (plain_object ''c'' 100)
      (record_call (Copy ''site'' ''index.html:ccc'' ''index.html'')
         (fetch_world (public_options ''ccc'') three_revisions)))"
  by (simp add: file_copy_def acl_fails_def no_faults_def three_revisions_def plain_object_def)

lemma makePublic_three_public:
  "file_makePublic acl_fails ''site'' ''index.html''
     (put_object ''site'' ''index.html'' (plain_object ''c'' 100)
        (record_call (Copy ''site'' ''index.html:ccc'' ''index.html'')
           (fetch_world (public_options ''ccc'') three_revisions))) =
   (Inl (ApiError ''403''),
    record_call (MakePublic ''site'' ''index.html'')
      (put_object ''site'' ''index.html'' (plain_object ''c'' 100)
        (record_call (Copy ''site'' ''index.html:ccc'' ''index.html'')
           (fetch_world (public_options ''ccc'') three_revisions))))"
  by (simp add: file_makePublic_def acl_fails_def no_faults_def)

lemma activate_acl_fails:
  "activate acl_fails (public_options ''ccc'') three_revisions =
     (Resolved (),
      plugin_log (LogError (ApiError ''403''))
        (record_call (MakePublic ''site'' ''index.html'')
           (put_object ''site'' ''index.html'' (plain_object ''c'' 100)
              (record_call (Copy ''site'' ''index.html:ccc'' ''index.html'')
                 (fetch_world (public_options ''ccc'') three_revisions)))))"
  by (simp add: activate_def fetch_three_public arr_indexOf_def public_options_keys
      copy_three_public makePublic_three_public)

lemma gzip_options_fields:
  "bucket (gzip_options k) = ''site''"
  "prefix' (gzip_options k) = ''''"
  "filePattern (gzip_options k) = ''index.html''"
  "revisionKey (gzip_options k) = k"
  "allowOverwrite (gzip_options k) = False"
  "filePath (gzip_options k) = ''tmp/index.html''"
  "gzippedFilePaths (gzip_options k) = Some [''app.js'', ''index.html'']"
  "acl_opt (gzip_options k) = Some ''public-read''"
  "upload_key (gzip_options k) = ''index.html:'' @ k"
  by (simp_all add: gzip_options_def index_options_def upload_key_def joinUriSegments_def)

lemma upload_gzip_resolves:
  "fst (upload no_faults (gzip_options ''ddd'') three_revisions) = Resolved ()"
proof -
  have f: "fetchRevisions no_faults (gzip_options ''ddd'') three_revisions =
     (Resolved [\<lparr>revision = ''ccc'', timestamp = 3, active = Some False\<rparr>,
                \<lparr>revision = ''bbb'', timestamp = 2, active = Some False\<rparr>,
                \<lparr>revision = ''aaa'', timestamp = 1, active = Some True\<rparr>],
      fetch_world (gzip_options ''ddd'') three_revisions)"
    by (rule fetch_three_gen) (simp_all add: no_faults_fields gzip_options_fields)
  have g: "allowOverwrite (gzip_options ''ddd'') \<or>
        revisionKey (gzip_options ''ddd'') \<notin> set (map revision
               [\<lparr>revision = ''ccc'', timestamp = 3, active = Some False\<rparr>,
                \<lparr>revision = ''bbb'', timestamp = 2, active = Some False\<rparr>,
                \<lparr>revision = ''aaa'', timestamp = 1, active = Some True\<rparr>])"
    by (simp add: gzip_options_fields)
  have p: "map_of (local_files no_faults) (filePath (gzip_options ''ddd'')) = Some ''<html></html>''"
    by (simp add: gzip_options_fields no_faults_fields)
  show ?thesis
    by (simp add: upload_proceeds [OF f g] pipe_file_finish [OF p no_faults_fields(2)])
qed

lemma fetch_two:
  "fetchRevisions no_faults (index_options k) two_revisions =
     (Resolved [\<lparr>revision = ''abcd'', timestamp = 2, active = Some True\<rparr>,
                \<lparr>revision = ''abc'', timestamp = 1, active = Some False\<rparr>],
      fetch_world (index_options k) two_revisions)"
  by (simp add: fetchRevisions_eq fetch_result_def bucket_getFiles_def file_getMetadata_def
      rsvp_hash_def current_promise_def sort_and_map_def array_sort_def
      by_updated_desc_def to_revision_def recorded_revision_def str_indexOf_def substr_def
      listing_def no_faults_def index_options_keys two_revisions_def plain_object_def
      index_object_def)

lemma stamped_plain:
  "stamped_copy no_faults (index_options k) (plain_object c t) =
     \<lparr>body = c, gzipped = False, public_read = False, updated = 100,
      props = \<lparr>contentType = Some ''text/html'', cacheControl = Some ''max-age=0, no-cache'',
               acl = None, metadata = Some [(''revision'', k)]\<rparr>\<rparr>"
  by (simp add: stamped_copy_def plain_object_def patch_def patch_field_def merge_custom_def
      activate_meta_def empty_meta_def lacks_def index_options_fields no_faults_fields
      AList.merge_def)

lemma activate_two:
  "fst (activate no_faults (index_options ''abc'') two_revisions) = Resolved () \<and>
   objects (snd (activate no_faults (index_options ''abc'') two_revisions)) =
     [((''site'', ''index.html:abc''), plain_object ''1'' 1),
      ((''site'', ''index.html:abcd''), plain_object ''2'' 2),
      ((''site'', ''index.html''), stamped_copy no_faults (index_options ''abc'') (plain_object ''1'' 1))]"
proof -
  have k: "revisionKey (index_options ''abc'') \<in> set (map revision
      [\<lparr>revision = ''abcd'', timestamp = 2, active = Some True\<rparr>,
       \<lparr>revision = ''abc'', timestamp = 1, active = Some False\<rparr>])"
    by (simp add: index_options_fields)
  have ob: "map_of (objects two_revisions)
       (bucket (index_options ''abc''), upload_key (index_options ''abc'')) =
       Some (plain_object ''1'' 1)"
    by (simp add: index_options_keys two_revisions_def)
  have m: "\<not> makePublic (index_options ''abc'')"
    by (simp add: index_options_fields)
  from activate_plain_ok [OF fetch_two k m no_faults_fields(3) no_faults_fields(5) ob]
  show ?thesis
    by (simp add: index_options_keys two_revisions_def)
qed

lemma fetch_after_activate_two:
  "fetchRevisions no_faults (index_options ''abc'')
     (snd (activate no_faults (index_options ''abc'') two_revisions)) =
   (Resolved [\<lparr>revision = ''abcd'', timestamp = 2, active = Some True\<rparr>,
              \<lparr>revision = ''abc'', timestamp = 1, active = Some True\<rparr>],
    fetch_world (index_options ''abc'')
      (snd (activate no_faults (index_options ''abc'') two_revisions)))"
proof -
  let ?w' = "snd (activate no_faults (index_options ''abc'') two_revisions)"
  let ?cur = "stamped_copy no_faults (index_options ''abc'') (plain_object ''1'' 1)"
  have o: "objects ?w' =
     [((''site'', ''index.html:abc''), plain_object ''1'' 1),
      ((''site'', ''index.html:abcd''), plain_object ''2'' 2),
      ((''site'', ''index.html''), ?cur)]"
    using activate_two by simp
  have cur: "map_of (objects ?w') (bucket (index_options ''abc''), indexKey_of (index_options ''abc''))
      = Some ?cur"
    by (simp add: o index_options_keys)
  have rr: "recorded_revision ?cur = Inr ''abc''"
    by (simp add: stamped_plain recorded_revision_def)
  have "map (flagged ''index.html:'' ''abc'')
          (array_sort by_updated_desc (listing ''site'' ''index.html:'' (objects ?w'))) =
        [\<lparr>revision = ''abcd'', timestamp = 2, active = Some True\<rparr>,
         \<lparr>revision = ''abc'', timestamp = 1, active = Some True\<rparr>]"
    by (simp add: o listing_def array_sort_def by_updated_desc_def flagged_def substr_def
        str_indexOf_def plain_object_def)
  then show ?thesis
    using fetch_with_index [OF no_faults_fields(6) no_faults_fields(7) cur rr]
    by (simp add: index_options_keys)
qed

lemma activate_three:
  "fst (activate no_faults (index_options ''ccc'') three_revisions) = Resolved () \<and>
   objects (snd (activate no_faults (index_options ''ccc'') three_revisions)) =
     [((''site'', ''index.html:bbb''), plain_object ''b'' 2),
      ((''site'', ''index.html:ccc''), plain_object ''c'' 3),
      ((''site'', ''index.html:aaa''), plain_object ''a'' 1),
      ((''site'', ''robots.txt''), plain_object ''r'' 7),
      ((''site'', ''index.html''), stamped_copy no_faults (index_options ''ccc'') (plain_object ''c'' 3))]"
proof -
  have k: "revisionKey (index_options ''ccc'') \<in> set (map revision
      [\<lparr>revision = ''ccc'', timestamp = 3, active = Some False\<rparr>,
       \<lparr>revision = ''bbb'', timestamp = 2, active = Some False\<rparr>,
       \<lparr>revision = ''aaa'', timestamp = 1, active = Some True\<rparr>])"
    by (simp add: index_options_fields)
  have ob: "map_of (objects three_revisions)
       (bucket (index_options ''ccc''), upload_key (index_options ''ccc'')) =
       Some (plain_object ''c'' 3)"
    by (simp add: index_options_keys three_revisions_def)
  have m: "\<not> makePublic (index_options ''ccc'')"
    by (simp add: index_options_fields)
  from activate_plain_ok [OF fetch_three_any k m no_faults_fields(3) no_faults_fields(5) ob]
  show ?thesis
    by (simp add: index_options_keys three_revisions_def)
qed

lemma fetch_after_activate_three:
  "fetchRevisions no_faults (index_options ''ccc'')
     (snd (activate no_faults (index_options ''ccc'') three_revisions)) =
   (Resolved [\<lparr>revision = ''ccc'', timestamp = 3, active = Some True\<rparr>,
              \<lparr>revision = ''bbb'', timestamp = 2, active = Some False\<rparr>,
              \<lparr>revision = ''aaa'', timestamp = 1, active = Some False\<rparr>],
    fetch_world (index_options ''ccc'')
      (snd (activate no_faults (index_options ''ccc'') three_revisions)))"
proof -
  let ?w' = "snd (activate no_faults (index_options ''ccc'') three_revisions)"
  let ?cur = "stamped_copy no_faults (index_options ''ccc'') (plain_object ''c'' 3)"
  have o: "objects ?w' =
     [((''site'', ''index.html:bbb''), plain_object ''b'' 2),
      ((''site'', ''index.html:ccc''), plain_object ''c'' 3),
      ((''site'', ''index.html:aaa''), plain_object ''a'' 1),
      ((''site'', ''robots.txt''), plain_object ''r'' 7),
      ((''site'', ''index.html''), ?cur)]"
    using activate_three by simp
  have cur: "map_of (objects ?w') (bucket (index_options ''ccc''), indexKey_of (index_options ''ccc''))
      = Some ?cur"
    by (simp add: o index_options_keys)
  have rr: "recorded_revision ?cur = Inr ''ccc''"
    by (simp add: stamped_plain recorded_revision_def)
  have "map (flagged ''index.html:'' ''ccc'')
          (array_sort by_updated_desc (listing ''site'' ''index.html:'' (objects ?w'))) =
        [\<lparr>revision = ''ccc'', timestamp = 3, active = Some True\<rparr>,
         \<lparr>revision = ''bbb'', timestamp = 2, active = Some False\<rparr>,
         \<lparr>revision = ''aaa'', timestamp = 1, active = Some False\<rparr>]"
    by (simp add: o listing_def array_sort_def by_updated_desc_def flagged_def substr_def
        str_indexOf_def plain_object_def)
  then show ?thesis
    using fetch_with_index [OF no_faults_fields(6) no_faults_fields(7) cur rr]
    by (simp add: index_options_keys)
qed

lemma meta_options_fields:
  "meta meta_options = Some \<lparr>contentType = None, cacheControl = Some ''public, max-age=60'',
                      acl = None, metadata = Some [(''owner'', ''ops''), (''revision'', ''old'')]\<rparr>"
  "revisionKey meta_options = ''ccc''"
  "makePublic meta_options = False"
  "bucket meta_options = ''site''"
  "prefix' meta_options = ''''"
  "filePattern meta_options = ''index.html''"
  "revisionPrefix_of meta_options = ''index.html:''"
  "indexKey_of meta_options = ''index.html''"
  "upload_key meta_options = ''index.html:ccc''"
  by (simp_all add: meta_options_def index_options_def revisionPrefix_of_def indexKey_of_def
      upload_key_def joinUriSegments_def)

lemma activate_meta_three:
  "fst (activate no_faults meta_options three_revisions) = Resolved () \<and>
   objects (snd (activate no_faults meta_options three_revisions)) =
     [((''site'', ''index.html:bbb''), plain_object ''b'' 2),
      ((''site'', ''index.html:ccc''), plain_object ''c'' 3),
      ((''site'', ''index.html:aaa''), plain_object ''a'' 1),
      ((''site'', ''robots.txt''), plain_object ''r'' 7),
      ((''site'', ''index.html''), stamped_copy no_faults meta_options (plain_object ''c'' 3))]"
proof -
  have f: "fetchRevisions no_faults meta_options three_revisions =
     (Resolved [\<lparr>revision = ''ccc'', timestamp = 3, active = Some False\<rparr>,
                \<lparr>revision = ''bbb'', timestamp = 2, active = Some False\<rparr>,
                \<lparr>revision = ''aaa'', timestamp = 1, active = Some True\<rparr>],
      fetch_world meta_options three_revisions)"
    by (rule fetch_three_gen) (simp_all add: no_faults_fields meta_options_fields)
  have k: "revisionKey meta_options \<in> set (map revision
      [\<lparr>revision = ''ccc'', timestamp = 3, active = Some False\<rparr>,
       \<lparr>revision = ''bbb'', timestamp = 2, active = Some False\<rparr>,
       \<lparr>revision = ''aaa'', timestamp = 1, active = Some True\<rparr>])"
    by (simp add: meta_options_fields)
  have ob: "map_of (objects three_revisions) (bucket meta_options, upload_key meta_options) =
       Some (plain_object ''c'' 3)"
    by (simp add: meta_options_fields three_revisions_def)
  have m: "\<not> makePublic meta_options"
    by (simp add: meta_options_fields)
  from activate_plain_ok [OF f k m no_faults_fields(3) no_faults_fields(5) ob]
  show ?thesis
    by (simp add: meta_options_fields three_revisions_def)
qed

section \<open>Key joining\<close>

text \<open>
  C6. Joining the empty prefix with a pattern gives the pattern itself, with no leading
  separator, and joining any other prefix \<open>p\<close> with \<open>f\<close> gives \<open>p\<close>, a slash and \<open>f\<close>.
\<close>

theorem joinUriSegments_spec:
  "joinUriSegments '''' f = f \<and> (p \<noteq> '''' \<longrightarrow> joinUriSegments p f = p @ ''/'' @ f)"
  by (simp add: joinUriSegments_def)

theorem joinUriSegments_spec_witness:
  "joinUriSegments '''' ''index.html'' = ''index.html'' \<and>
   ''dist'' \<noteq> '''' \<and> joinUriSegments ''dist'' ''index.html'' = ''dist/index.html''"
  using joinUriSegments_spec [of "''index.html''" "''dist''"] by simp

section \<open>Listing\<close>

text \<open>
  C5. A listing whose metadata request finds no index object should resolve with no
  active revision. The code tests \<^verbatim>\<open>response.error.code === 404\<close> for that, and
  \<open>current_promise\<close> swallows an error whose response has that shape. The client the
  adapter imports hands over a response without \<^verbatim>\<open>error\<close>, so the test never holds: with
  three revisions stored, no index object and a service that answers every request,
  \<open>fetchRevisions\<close> rejects with the not-found error.
\<close>

theorem fetchRevisions_index_absent_rejects:
  "map_of (objects first_deploy) (''site'', ''index.html'') = None \<and>
   current_promise (GetMetadataError not_found (Some (Response (Some 404)))) = Inr None \<and>
   fst (file_getMetadata no_faults ''site'' ''index.html'' first_deploy) =
     GetMetadataError not_found (Some (Response None)) \<and>
   fetchRevisions no_faults (index_options ''ccc'') first_deploy =
     (Rejected not_found, fetch_world (index_options ''ccc'') first_deploy)"
proof -
  have a: "map_of (objects first_deploy) (''site'', ''index.html'') = None"
    by (simp add: first_deploy_def)
  have b: "current_promise (GetMetadataError not_found (Some (Response (Some 404)))) = Inr None"
    by (simp add: current_promise_def is_404_def)
  have c: "fst (file_getMetadata no_faults ''site'' ''index.html'' first_deploy) =
     GetMetadataError not_found (Some (Response None))"
    by (simp add: file_getMetadata_def no_faults_fields a)
  have "map_of (objects first_deploy)
          (bucket (index_options ''ccc''), indexKey_of (index_options ''ccc'')) = None"
    by (simp add: index_options_keys a)
  then have d: "fetchRevisions no_faults (index_options ''ccc'') first_deploy =
     (Rejected not_found, fetch_world (index_options ''ccc'') first_deploy)"
    by (rule fetch_index_absent [OF no_faults_fields(6) no_faults_fields(7)])
  from a b c d show ?thesis by simp
qed

text \<open>
  C9. A listing that resolves returns the revisions newest first: the timestamps never
  increase along the result, and they are the dates of the listed objects, each as often
  as it is listed. Revisions stored at three increasing dates come back in the order
  third, second, first.
\<close>

theorem fetchRevisions_newest_first:
  assumes "fetchRevisions e opts w = (Resolved revs, w')"
  shows "sorted_wrt (\<lambda>a b. timestamp a \<ge> timestamp b) revs \<and>
         mset (map timestamp revs) =
           mset (map (\<lambda>d. updated (resource d))
                  (listing (bucket opts) (revisionPrefix_of opts) (objects w)))"
proof -
  let ?files = "listing (bucket opts) (revisionPrefix_of opts) (objects w)"
  from assms have "fetch_result e opts w = Resolved revs"
    by (simp add: fetchRevisions_eq)
  then obtain cur where "sort_and_map (revisionPrefix_of opts) ?files cur = Inr revs"
    using fetch_result_Resolved by blast
  then have ts: "map timestamp revs =
      map (\<lambda>d. updated (resource d)) (array_sort by_updated_desc ?files)"
    by (rule sort_and_map_timestamps)
  have "sorted_wrt (\<lambda>a b. updated (resource a) \<ge> updated (resource b))
          (array_sort by_updated_desc ?files)"
    using sorted_array_sort [of ?files] by (simp add: newer_first_def [abs_def])
  then have "sorted_wrt (\<ge>) (map (\<lambda>d. updated (resource d)) (array_sort by_updated_desc ?files))"
    by (simp add: sorted_wrt_map)
  then have "sorted_wrt (\<ge>) (map timestamp revs)"
    by (simp add: ts)
  then have s: "sorted_wrt (\<lambda>a b. timestamp a \<ge> timestamp b) revs"
    by (simp add: sorted_wrt_map)
  have "mset (map timestamp revs) = image_mset (\<lambda>d. updated (resource d)) (mset (array_sort by_updated_desc ?files))"
    by (simp add: ts)
  then have m: "mset (map timestamp revs) = mset (map (\<lambda>d. updated (resource d)) ?files)"
    by (simp add: mset_array_sort)
  from s m show ?thesis by simp
qed

theorem fetchRevisions_newest_first_witness:
  "fetchRevisions no_faults (index_options ''ccc'') three_revisions =
     (Resolved [\<lparr>revision = ''ccc'', timestamp = 3, active = Some False\<rparr>,
                \<lparr>revision = ''bbb'', timestamp = 2, active = Some False\<rparr>,
                \<lparr>revision = ''aaa'', timestamp = 1, active = Some True\<rparr>],
      fetch_world (index_options ''ccc'') three_revisions) \<and>
   sorted_wrt (\<lambda>a b. timestamp a \<ge> timestamp b)
     [\<lparr>revision = ''ccc'', timestamp = 3, active = Some False\<rparr>,
      \<lparr>revision = ''bbb'', timestamp = 2, active = Some False\<rparr>,
      \<lparr>revision = ''aaa'', timestamp = 1, active = Some True\<rparr>]"
  using fetch_three fetchRevisions_newest_first [OF fetch_three] by simp



section \<open>Upload\<close>

text \<open>
  C3. Let the listing of \<open>upload\<close> resolve with \<open>revisions\<close>. When one of them has the
  given revision key and \<open>allowOverwrite\<close> is off, \<open>upload\<close> rejects with the
  already-uploaded message, the stored objects are as before and the only requests sent
  are the two of the listing: no write stream is opened. When \<open>allowOverwrite\<close> is on
  or no listed revision has the key, the write stream for the revision object is opened
  next, and when the local file can be read and the service accepts the write, \<open>upload\<close>
  resolves and the object is stored under the revision key.
\<close>

theorem upload_overwrite_guard:
  assumes "fetchRevisions e opts w = (Resolved revisions, w1)"
  shows "(revisionKey opts \<in> set (map revision revisions) \<and> \<not> allowOverwrite opts \<longrightarrow>
            upload e opts w = (Rejected already_uploaded, w1) \<and>
            objects w1 = objects w \<and>
            calls w1 = calls w @ [GetFiles (bucket opts) (revisionPrefix_of opts),
                                  GetMetadata (bucket opts) (indexKey_of opts)]) \<and>
         (allowOverwrite opts \<or> revisionKey opts \<notin> set (map revision revisions) \<longrightarrow>
            calls (snd (upload e opts w)) =
              calls w1 @ [CreateWriteStream (bucket opts) (upload_key opts) (upload_params e opts)] \<and>
            (\<forall>content. map_of (local_files e) (filePath opts) = Some content \<and> write_error e = None \<longrightarrow>
               fst (upload e opts w) = Resolved () \<and>
               map_of (objects (snd (upload e opts w))) (bucket opts, upload_key opts) =
                 Some \<lparr>body = content,
                       gzipped = (params_gzip (upload_params e opts) = Some True),
                       public_read = False, updated = now e,
                       props = params_metadata (upload_params e opts)\<rparr>))"
proof -
  have w1: "w1 = fetch_world opts w"
    using assms by (rule fetchRevisions_world)
  have a: "upload e opts w = (Rejected already_uploaded, w1) \<and> objects w1 = objects w \<and>
            calls w1 = calls w @ [GetFiles (bucket opts) (revisionPrefix_of opts),
                                  GetMetadata (bucket opts) (indexKey_of opts)]"
    if "revisionKey opts \<in> set (map revision revisions)" "\<not> allowOverwrite opts"
    using upload_rejected [OF assms that] by (simp add: w1 calls_fetch_world)
  have b: "calls (snd (upload e opts w)) =
              calls w1 @ [CreateWriteStream (bucket opts) (upload_key opts) (upload_params e opts)]"
    if "allowOverwrite opts \<or> revisionKey opts \<notin> set (map revision revisions)"
  proof -
    let ?p = "pipe_file e (filePath opts) (bucket opts) (upload_key opts) (upload_params e opts) w1"
    have "calls (snd (upload e opts w)) = calls (snd ?p)"
      by (cases ?p) (auto simp: upload_proceeds [OF assms that] split: sum.splits option.splits)
    then show ?thesis by (simp add: calls_pipe_file)
  qed
  have c: "fst (upload e opts w) = Resolved () \<and>
           map_of (objects (snd (upload e opts w))) (bucket opts, upload_key opts) =
                 Some \<lparr>body = content,
                       gzipped = (params_gzip (upload_params e opts) = Some True),
                       public_read = False, updated = now e,
                       props = params_metadata (upload_params e opts)\<rparr>"
    if "allowOverwrite opts \<or> revisionKey opts \<notin> set (map revision revisions)"
       "map_of (local_files e) (filePath opts) = Some content" "write_error e = None" for content
    by (simp add: upload_proceeds [OF assms that(1)] pipe_file_finish [OF that(2,3)] update_conv')
  from a b c show ?thesis by blast
qed

theorem upload_overwrite_guard_witness:
  "upload no_faults (index_options ''ccc'') three_revisions =
     (Rejected already_uploaded, fetch_world (index_options ''ccc'') three_revisions) \<and>
   objects (fetch_world (index_options ''ccc'') three_revisions) = objects three_revisions \<and>
   fst (upload no_faults (index_options ''ddd'') three_revisions) = Resolved () \<and>
   map_of (objects (snd (upload no_faults (index_options ''ddd'') three_revisions)))
       (''site'', ''index.html:ddd'') =
     Some \<lparr>body = ''<html></html>'', gzipped = False, public_read = False, updated = 100,
           props = \<lparr>contentType = Some ''text/html'', cacheControl = Some ''max-age=0, no-cache'',
                    acl = None, metadata = None\<rparr>\<rparr>"
proof -
  note c = upload_overwrite_guard [OF fetch_three_any [of "''ccc''"]]
  note d = upload_overwrite_guard [OF fetch_three_any [of "''ddd''"]]
  have p: "upload_params no_faults (index_options ''ddd'') =
      \<lparr>params_metadata = \<lparr>contentType = Some ''text/html'',
          cacheControl = Some ''max-age=0, no-cache'', acl = None, metadata = None\<rparr>,
       params_gzip = None\<rparr>"
    by (simp add: upload_params_def upload_contentType_def isGzipped_def arr_indexOf_def
        index_options_fields no_faults_fields)
  from c have 1: "upload no_faults (index_options ''ccc'') three_revisions =
     (Rejected already_uploaded, fetch_world (index_options ''ccc'') three_revisions) \<and>
   objects (fetch_world (index_options ''ccc'') three_revisions) = objects three_revisions"
    by (simp add: index_options_fields)
  from d have 2: "fst (upload no_faults (index_options ''ddd'') three_revisions) = Resolved () \<and>
   map_of (objects (snd (upload no_faults (index_options ''ddd'') three_revisions)))
       (''site'', ''index.html:ddd'') =
     Some \<lparr>body = ''<html></html>'', gzipped = False, public_read = False, updated = 100,
           props = \<lparr>contentType = Some ''text/html'', cacheControl = Some ''max-age=0, no-cache'',
                    acl = None, metadata = None\<rparr>\<rparr>"
    by (simp add: index_options_fields index_options_keys no_faults_fields p)
  from 1 2 show ?thesis by simp
qed

text \<open>
  C7. The parameters of the write stream of \<open>upload\<close>: the content type is what
  \<^verbatim>\<open>mime.lookup\<close> finds for the file path and \<^verbatim>\<open>text/html\<close> when it finds none, the
  cache control is \<^verbatim>\<open>max-age=0, no-cache\<close>, the ACL is the one of the options, and gzip
  is switched on exactly when the file pattern occurs in \<open>gzippedFilePaths\<close>. Every write
  stream \<open>upload\<close> opens is for the revision key with these parameters, and when
  \<open>upload\<close> resolves the stored object carries them.
\<close>

theorem upload_write_params:
  "(mime_lookup e (filePath opts) = None \<longrightarrow>
      contentType (params_metadata (upload_params e opts)) = Some ''text/html'') \<and>
   (\<forall>t. mime_lookup e (filePath opts) = Some t \<and> t \<noteq> '''' \<longrightarrow>
      contentType (params_metadata (upload_params e opts)) = Some t) \<and>
   cacheControl (params_metadata (upload_params e opts)) = Some ''max-age=0, no-cache'' \<and>
   acl (params_metadata (upload_params e opts)) = acl_opt opts \<and>
   (params_gzip (upload_params e opts) = Some True \<longleftrightarrow>
      (\<exists>ps. gzippedFilePaths opts = Some ps \<and> filePattern opts \<in> set ps)) \<and>
   (\<forall>b k p. CreateWriteStream b k p \<in> set (calls (snd (upload e opts w))) \<longrightarrow>
      CreateWriteStream b k p \<in> set (calls w) \<or>
      (b = bucket opts \<and> k = upload_key opts \<and> p = upload_params e opts)) \<and>
   (upload e opts w = (Resolved (), w') \<longrightarrow>
      (\<exists>ob. map_of (objects w') (bucket opts, upload_key opts) = Some ob \<and>
         props ob = params_metadata (upload_params e opts) \<and>
         (gzipped ob \<longleftrightarrow>
            (\<exists>ps. gzippedFilePaths opts = Some ps \<and> filePattern opts \<in> set ps))))"
proof -
  have ct: "mime_lookup e (filePath opts) = None \<longrightarrow>
      contentType (params_metadata (upload_params e opts)) = Some ''text/html''"
    by (simp add: upload_params_def upload_contentType_def)
  have ct': "\<forall>t. mime_lookup e (filePath opts) = Some t \<and> t \<noteq> '''' \<longrightarrow>
      contentType (params_metadata (upload_params e opts)) = Some t"
    by (simp add: upload_params_def upload_contentType_def)
  have cc: "cacheControl (params_metadata (upload_params e opts)) = Some ''max-age=0, no-cache''"
    by (simp add: upload_params_def)
  have ac: "acl (params_metadata (upload_params e opts)) = acl_opt opts"
    by (simp add: upload_params_def)
  have cs: "\<forall>b k p. CreateWriteStream b k p \<in> set (calls (snd (upload e opts w))) \<longrightarrow>
      CreateWriteStream b k p \<in> set (calls w) \<or>
      (b = bucket opts \<and> k = upload_key opts \<and> p = upload_params e opts)"
    using upload_calls [of e opts w] by (auto simp: calls_fetch_world)
  have st: "\<exists>ob. map_of (objects w') (bucket opts, upload_key opts) = Some ob \<and>
         props ob = params_metadata (upload_params e opts) \<and>
         (gzipped ob \<longleftrightarrow>
            (\<exists>ps. gzippedFilePaths opts = Some ps \<and> filePattern opts \<in> set ps))"
    if "upload e opts w = (Resolved (), w')"
  proof -
    from upload_Resolved [OF that] obtain content where
      "objects w' = AList.update (bucket opts, upload_key opts)
        \<lparr>body = content, gzipped = (params_gzip (upload_params e opts) = Some True),
         public_read = False, updated = now e, props = params_metadata (upload_params e opts)\<rparr>
        (objects w)"
      by blast
    then show ?thesis
      by (simp add: update_conv' params_gzip_iff)
  qed
  from ct ct' cc ac cs st params_gzip_iff [of e opts] show ?thesis
    by blast
qed

theorem upload_write_params_witness:
  "mime_lookup no_faults ''tmp/index.html'' = Some ''text/html'' \<and>
   upload_params no_faults (gzip_options ''ddd'') =
     \<lparr>params_metadata =
        \<lparr>contentType = Some ''text/html'', cacheControl = Some ''max-age=0, no-cache'',
         acl = Some ''public-read'', metadata = None\<rparr>,
      params_gzip = Some True\<rparr> \<and>
   fst (upload no_faults (gzip_options ''ddd'') three_revisions) = Resolved () \<and>
   map_option props
     (map_of (objects (snd (upload no_faults (gzip_options ''ddd'') three_revisions)))
        (''site'', ''index.html:ddd'')) =
     Some \<lparr>contentType = Some ''text/html'', cacheControl = Some ''max-age=0, no-cache'',
           acl = Some ''public-read'', metadata = None\<rparr> \<and>
   map_option gzipped
     (map_of (objects (snd (upload no_faults (gzip_options ''ddd'') three_revisions)))
        (''site'', ''index.html:ddd'')) = Some True"
proof -
  let ?w' = "snd (upload no_faults (gzip_options ''ddd'') three_revisions)"
  have up: "upload no_faults (gzip_options ''ddd'') three_revisions = (Resolved (), ?w')"
    using upload_gzip_resolves by (simp add: prod_eq_iff)
  have p: "upload_params no_faults (gzip_options ''ddd'') =
     \<lparr>params_metadata =
        \<lparr>contentType = Some ''text/html'', cacheControl = Some ''max-age=0, no-cache'',
         acl = Some ''public-read'', metadata = None\<rparr>,
      params_gzip = Some True\<rparr>"
    by (simp add: upload_params_def upload_contentType_def isGzipped_def arr_indexOf_def
        gzip_options_fields no_faults_fields)
  from upload_write_params [of no_faults "gzip_options ''ddd''" three_revisions ?w'] up
  obtain ob where
    "map_of (objects ?w') (bucket (gzip_options ''ddd''), upload_key (gzip_options ''ddd'')) = Some ob"
    "props ob = params_metadata (upload_params no_faults (gzip_options ''ddd''))"
    "gzipped ob \<longleftrightarrow> (\<exists>ps. gzippedFilePaths (gzip_options ''ddd'') = Some ps \<and>
        filePattern (gzip_options ''ddd'') \<in> set ps)"
    by blast
  then show ?thesis
    using upload_gzip_resolves by (simp add: p gzip_options_fields no_faults_fields)
qed

section \<open>Activation\<close>

text \<open>
  C4. Let the listing of \<open>activate\<close> resolve with \<open>revisions\<close>, none of them with the
  given revision key. Then \<open>activate\<close> rejects with the revision-not-found message;
  the stored objects, the index object among them, and the log are as before, and the only
  requests sent are the two of the listing: no copy, no ACL change, no metadata write.
\<close>

theorem activate_revision_not_found:
  assumes "fetchRevisions e opts w = (Resolved revisions, w1)"
    and "revisionKey opts \<notin> set (map revision revisions)"
  shows "activate e opts w = (Rejected revision_not_found, w1) \<and>
         objects w1 = objects w \<and> logged w1 = logged w \<and>
         calls w1 = calls w @ [GetFiles (bucket opts) (revisionPrefix_of opts),
                               GetMetadata (bucket opts) (indexKey_of opts)]"
proof -
  have "w1 = fetch_world opts w"
    using assms(1) by (rule fetchRevisions_world)
  moreover have "activate e opts w = (Rejected revision_not_found, w1)"
    using assms by (simp add: activate_def arr_indexOf_nonneg)
  ultimately show ?thesis
    by (simp add: calls_fetch_world)
qed

theorem activate_revision_not_found_witness:
  "''ddd'' \<notin> set [''ccc'', ''bbb'', ''aaa''] \<and>
   activate no_faults (index_options ''ddd'') three_revisions =
     (Rejected revision_not_found, fetch_world (index_options ''ddd'') three_revisions) \<and>
   objects (fetch_world (index_options ''ddd'') three_revisions) = objects three_revisions"
  using activate_revision_not_found [OF fetch_three_any [of "''ddd''"]]
  by (simp add: index_options_fields)

text \<open>
  C8. Let \<open>m0\<close> be the caller's \<open>meta\<close>, or the empty object when none is given. The
  metadata \<open>activate\<close> hands to \<open>setMetadata\<close> is \<open>m0\<close> with the cache control set to
  \<^verbatim>\<open>max-age=0, no-cache\<close> when \<open>m0\<close> has none (the test \<^verbatim>\<open>!meta.cacheControl\<close> holds for
  an absent and for an empty value) and kept otherwise, and with \<^verbatim>\<open>metadata.revision\<close> set
  to the revision key whatever it was, the other custom keys and the other fields being
  those of \<open>m0\<close>. Every \<open>setMetadata\<close> request of \<open>activate\<close> is for the index key and
  carries this metadata. An activation that resolves, with \<open>makePublic\<close> off or the ACL
  request not failing, has sent that request as its last one, after the listing, the copy
  and the ACL request if any, and has left an index object with the cache control of this
  metadata and the revision key recorded.
\<close>

theorem activate_meta_written:
  assumes "m0 = (case meta opts of None \<Rightarrow> empty_meta | Some m \<Rightarrow> m)"
  shows "(cacheControl m0 = None \<or> cacheControl m0 = Some '''' \<longrightarrow>
            cacheControl (activate_meta opts) = Some ''max-age=0, no-cache'') \<and>
         (\<forall>c. cacheControl m0 = Some c \<and> c \<noteq> '''' \<longrightarrow>
            cacheControl (activate_meta opts) = Some c) \<and>
         contentType (activate_meta opts) = contentType m0 \<and>
         acl (activate_meta opts) = acl m0 \<and>
         (\<exists>kvs. metadata (activate_meta opts) = Some kvs \<and>
            map_of kvs ''revision'' = Some (revisionKey opts) \<and>
            (\<forall>k. k \<noteq> ''revision'' \<longrightarrow>
               map_of kvs k = (case metadata m0 of None \<Rightarrow> None | Some kvs0 \<Rightarrow> map_of kvs0 k))) \<and>
         (\<forall>b k m. SetMetadata b k m \<in> set (calls (snd (activate e opts w))) \<longrightarrow>
            SetMetadata b k m \<in> set (calls w) \<or>
            (b = bucket opts \<and> k = indexKey_of opts \<and> m = activate_meta opts)) \<and>
         (activate e opts w = (Resolved (), w') \<and>
          (\<not> makePublic opts \<or> makePublic_error e = None) \<longrightarrow>
            calls w' =
              calls w @ [GetFiles (bucket opts) (revisionPrefix_of opts),
                         GetMetadata (bucket opts) (indexKey_of opts),
                         Copy (bucket opts) (upload_key opts) (indexKey_of opts)]
                @ (if makePublic opts then [MakePublic (bucket opts) (indexKey_of opts)] else [])
                @ [SetMetadata (bucket opts) (indexKey_of opts) (activate_meta opts)] \<and>
            (\<exists>ob kvs. map_of (objects w') (bucket opts, indexKey_of opts) = Some ob \<and>
               cacheControl (props ob) = cacheControl (activate_meta opts) \<and>
               metadata (props ob) = Some kvs \<and>
               map_of kvs ''revision'' = Some (revisionKey opts)))"
proof -
  note f = activate_meta_fields [OF assms]
  have cc: "cacheControl m0 = None \<or> cacheControl m0 = Some '''' \<longrightarrow>
            cacheControl (activate_meta opts) = Some ''max-age=0, no-cache''"
    by (auto simp: f(3) lacks_def)
  have cc': "\<forall>c. cacheControl m0 = Some c \<and> c \<noteq> '''' \<longrightarrow>
            cacheControl (activate_meta opts) = Some c"
    by (auto simp: f(3) lacks_def)
  let ?kvs = "AList.update ''revision'' (revisionKey opts)
                   (case metadata m0 of None \<Rightarrow> [] | Some kvs \<Rightarrow> kvs)"
  have "map_of ?kvs ''revision'' = Some (revisionKey opts)"
    by (simp add: update_conv')
  moreover have "\<forall>k. k \<noteq> ''revision'' \<longrightarrow>
               map_of ?kvs k = (case metadata m0 of None \<Rightarrow> None | Some kvs0 \<Rightarrow> map_of kvs0 k)"
    by (simp add: update_conv' split: option.splits)
  ultimately have md: "\<exists>kvs. metadata (activate_meta opts) = Some kvs \<and>
            map_of kvs ''revision'' = Some (revisionKey opts) \<and>
            (\<forall>k. k \<noteq> ''revision'' \<longrightarrow>
               map_of kvs k = (case metadata m0 of None \<Rightarrow> None | Some kvs0 \<Rightarrow> map_of kvs0 k))"
    using f(4) by blast
  obtain cs where cs: "calls (snd (activate e opts w)) = calls (fetch_world opts w) @ cs"
    "set cs \<subseteq> activate_requests opts"
    using activate_calls by blast
  have sm: "\<forall>b k m. SetMetadata b k m \<in> set (calls (snd (activate e opts w))) \<longrightarrow>
            SetMetadata b k m \<in> set (calls w) \<or>
            (b = bucket opts \<and> k = indexKey_of opts \<and> m = activate_meta opts)"
    using cs(2) by (auto simp: cs(1) calls_fetch_world activate_requests_def)
  have wr: "calls w' =
              calls w @ [GetFiles (bucket opts) (revisionPrefix_of opts),
                         GetMetadata (bucket opts) (indexKey_of opts),
                         Copy (bucket opts) (upload_key opts) (indexKey_of opts)]
                @ (if makePublic opts then [MakePublic (bucket opts) (indexKey_of opts)] else [])
                @ [SetMetadata (bucket opts) (indexKey_of opts) (activate_meta opts)] \<and>
            (\<exists>ob kvs. map_of (objects w') (bucket opts, indexKey_of opts) = Some ob \<and>
               cacheControl (props ob) = cacheControl (activate_meta opts) \<and>
               metadata (props ob) = Some kvs \<and>
               map_of kvs ''revision'' = Some (revisionKey opts))"
    if a: "activate e opts w = (Resolved (), w')"
      and m: "\<not> makePublic opts \<or> makePublic_error e = None"
  proof -
    from activate_writes_meta [OF a m] obtain ob where
      c: "calls w' =
              calls w @ [GetFiles (bucket opts) (revisionPrefix_of opts),
                         GetMetadata (bucket opts) (indexKey_of opts),
                         Copy (bucket opts) (upload_key opts) (indexKey_of opts)]
                @ (if makePublic opts then [MakePublic (bucket opts) (indexKey_of opts)] else [])
                @ [SetMetadata (bucket opts) (indexKey_of opts) (activate_meta opts)]" and
      ob: "map_of (objects w') (bucket opts, indexKey_of opts) = Some ob"
        "cacheControl (props ob) = cacheControl (activate_meta opts)"
      by blast
    from activate_stamps [OF a m] obtain ob' kvs where
      "map_of (objects w') (bucket opts, indexKey_of opts) = Some ob'"
      "metadata (props ob') = Some kvs" "map_of kvs ''revision'' = Some (revisionKey opts)"
      by blast
    with ob have "metadata (props ob) = Some kvs" "map_of kvs ''revision'' = Some (revisionKey opts)"
      by simp_all
    with c ob show ?thesis by blast
  qed
  from cc cc' f(1,2) md sm wr show ?thesis
    by blast
qed

theorem activate_meta_written_witness:
  "activate_meta meta_options =
     \<lparr>contentType = None, cacheControl = Some ''public, max-age=60'', acl = None,
      metadata = Some [(''owner'', ''ops''), (''revision'', ''ccc'')]\<rparr> \<and>
   activate_meta (index_options ''ccc'') =
     \<lparr>contentType = None, cacheControl = Some ''max-age=0, no-cache'', acl = None,
      metadata = Some [(''revision'', ''ccc'')]\<rparr> \<and>
   fst (activate no_faults meta_options three_revisions) = Resolved () \<and>
   makePublic meta_options = False \<and>
   calls (snd (activate no_faults meta_options three_revisions)) =
     [GetFiles ''site'' ''index.html:'', GetMetadata ''site'' ''index.html'',
      Copy ''site'' ''index.html:ccc'' ''index.html'',
      SetMetadata ''site'' ''index.html''
        \<lparr>contentType = None, cacheControl = Some ''public, max-age=60'', acl = None,
         metadata = Some [(''owner'', ''ops''), (''revision'', ''ccc'')]\<rparr>] \<and>
   map_option props
     (map_of (objects (snd (activate no_faults meta_options three_revisions)))
        (''site'', ''index.html'')) =
     Some \<lparr>contentType = Some ''text/html'', cacheControl = Some ''public, max-age=60'',
           acl = None, metadata = Some [(''revision'', ''ccc''), (''owner'', ''ops'')]\<rparr>"
proof -
  let ?w' = "snd (activate no_faults meta_options three_revisions)"
  have am: "activate_meta meta_options =
     \<lparr>contentType = None, cacheControl = Some ''public, max-age=60'', acl = None,
      metadata = Some [(''owner'', ''ops''), (''revision'', ''ccc'')]\<rparr>"
    by (simp add: activate_meta_def meta_options_fields lacks_def)
  have ai: "activate_meta (index_options ''ccc'') =
     \<lparr>contentType = None, cacheControl = Some ''max-age=0, no-cache'', acl = None,
      metadata = Some [(''revision'', ''ccc'')]\<rparr>"
    by (simp add: activate_meta_def index_options_fields lacks_def empty_meta_def)
  have a: "activate no_faults meta_options three_revisions = (Resolved (), ?w')"
    using activate_meta_three by (simp add: prod_eq_iff)
  have m: "\<not> makePublic meta_options \<or> makePublic_error no_faults = None"
    by (simp add: meta_options_fields)
  from activate_meta_written [OF refl, of meta_options no_faults three_revisions ?w'] a m
  have "calls ?w' =
     calls three_revisions @ [GetFiles (bucket meta_options) (revisionPrefix_of meta_options),
        GetMetadata (bucket meta_options) (indexKey_of meta_options),
        Copy (bucket meta_options) (upload_key meta_options) (indexKey_of meta_options)]
       @ (if makePublic meta_options then [MakePublic (bucket meta_options) (indexKey_of meta_options)]
          else [])
       @ [SetMetadata (bucket meta_options) (indexKey_of meta_options) (activate_meta meta_options)]"
    by blast
  then have c: "calls ?w' =
     [GetFiles ''site'' ''index.html:'', GetMetadata ''site'' ''index.html'',
      Copy ''site'' ''index.html:ccc'' ''index.html'',
      SetMetadata ''site'' ''index.html''
        \<lparr>contentType = None, cacheControl = Some ''public, max-age=60'', acl = None,
         metadata = Some [(''owner'', ''ops''), (''revision'', ''ccc'')]\<rparr>]"
    by (simp add: meta_options_fields am three_revisions_def)
  have o: "map_option props (map_of (objects ?w') (''site'', ''index.html'')) =
     Some \<lparr>contentType = Some ''text/html'', cacheControl = Some ''public, max-age=60'',
           acl = None, metadata = Some [(''revision'', ''ccc''), (''owner'', ''ops'')]\<rparr>"
    using activate_meta_three
    by (simp add: stamped_copy_def am plain_object_def patch_def patch_field_def
        merge_custom_def AList.merge_def no_faults_fields)
  have r: "fst (activate no_faults meta_options three_revisions) = Resolved ()"
    using activate_meta_three by simp
  from am ai r c o show ?thesis
    by (simp add: meta_options_fields)
qed

text \<open>
  C1. A failed ACL request should be logged and swallowed without keeping the metadata
  from being written. The code logs and swallows it, and \<open>activate\<close> resolves, but the
  rejection handler does nothing else, while both other resolving paths write the
  metadata. With three revisions stored, \<open>makePublic\<close> on and a service that refuses the
  ACL request, activating \<^verbatim>\<open>ccc\<close> resolves after the listing, the copy and the ACL
  request, with no \<open>setMetadata\<close> request; the index object is the bare copy of the
  revision object, without custom metadata, and the next listing rejects with a
  \<^verbatim>\<open>TypeError\<close>.
\<close>

theorem activate_makePublic_failure_skips_metadata:
  "makePublic (public_options ''ccc'') \<and>
   fst (activate acl_fails (public_options ''ccc'') three_revisions) = Resolved () \<and>
   logged (snd (activate acl_fails (public_options ''ccc'') three_revisions)) =
     [LogError (ApiError ''403'')] \<and>
   calls (snd (activate acl_fails (public_options ''ccc'') three_revisions)) =
     [GetFiles ''site'' ''index.html:'', GetMetadata ''site'' ''index.html'',
      Copy ''site'' ''index.html:ccc'' ''index.html'', MakePublic ''site'' ''index.html''] \<and>
   map_of (objects (snd (activate acl_fails (public_options ''ccc'') three_revisions)))
     (''site'', ''index.html'') = Some (plain_object ''c'' 100) \<and>
   metadata (props (plain_object ''c'' 100)) = None \<and>
   fst (fetchRevisions no_faults (public_options ''ccc'')
          (snd (activate acl_fails (public_options ''ccc'') three_revisions))) =
     Rejected TypeError"
proof -
  let ?w' = "snd (activate acl_fails (public_options ''ccc'') three_revisions)"
  have a: "makePublic (public_options ''ccc'') \<and>
     fst (activate acl_fails (public_options ''ccc'') three_revisions) = Resolved () \<and>
     logged ?w' = [LogError (ApiError ''403'')] \<and>
     calls ?w' =
       [GetFiles ''site'' ''index.html:'', GetMetadata ''site'' ''index.html'',
        Copy ''site'' ''index.html:ccc'' ''index.html'', MakePublic ''site'' ''index.html''] \<and>
     map_of (objects ?w') (''site'', ''index.html'') = Some (plain_object ''c'' 100) \<and>
     metadata (props (plain_object ''c'' 100)) = None"
    unfolding activate_acl_fails
    by (simp add: public_options_keys calls_fetch_world update_conv'
        three_revisions_def plain_object_def)
  then have cur: "map_of (objects ?w')
       (bucket (public_options ''ccc''), indexKey_of (public_options ''ccc'')) =
       Some (plain_object ''c'' 100)"
    by (simp add: public_options_keys)
  have bare: "metadata (props (plain_object ''c'' 100)) = None"
    by (simp add: plain_object_def)
  have "listing ''site'' ''index.html:'' (objects ?w') \<noteq> []"
    unfolding activate_acl_fails
    by (simp add: listing_def three_revisions_def)
  then have l: "listing (bucket (public_options ''ccc'')) (revisionPrefix_of (public_options ''ccc''))
            (objects ?w') \<noteq> []"
    by (simp add: public_options_keys)
  have "fetchRevisions no_faults (public_options ''ccc'') ?w' =
          (Rejected TypeError, fetch_world (public_options ''ccc'') ?w')"
    by (rule fetch_index_bare [OF no_faults_fields(6) no_faults_fields(7) cur bare l])
  with a show ?thesis by simp
qed

section \<open>Activation, then listing\<close>

text \<open>
  C2, amended. Let \<open>activate\<close> resolve for a revision key, with \<open>makePublic\<close> off or the
  ACL request not failing, so that the metadata is written. Then the index object's
  custom metadata records the revision key, and a following \<open>fetchRevisions\<close> whose two
  requests succeed resolves with a list in which the activated revision occurs and is
  active, and in which a revision is active exactly when the activated key occurs as a
  substring in the name of its object, the revision prefix followed by its own key. So
  every revision whose object name does not contain the activated key is inactive, and
  one whose name contains it is active although it is another revision.
\<close>

theorem activate_then_fetchRevisions:
  assumes "activate e opts w = (Resolved (), w')"
    and "\<not> makePublic opts \<or> makePublic_error e = None"
    and "getFiles_error e' = None" and "getMetadata_error e' = None"
  shows "(\<exists>ob kvs. map_of (objects w') (bucket opts, indexKey_of opts) = Some ob \<and>
            metadata (props ob) = Some kvs \<and> map_of kvs ''revision'' = Some (revisionKey opts)) \<and>
         (\<exists>revs. fetchRevisions e' opts w' = (Resolved revs, fetch_world opts w') \<and>
            (\<exists>r \<in> set revs. revision r = revisionKey opts) \<and>
            (\<forall>r \<in> set revs. revision r = revisionKey opts \<longrightarrow> active r = Some True) \<and>
            (\<forall>r \<in> set revs.
               active r = Some (sublist (revisionKey opts) (revisionPrefix_of opts @ revision r))))"
proof -
  let ?rp = "revisionPrefix_of opts"
  let ?k = "revisionKey opts"
  let ?files = "array_sort by_updated_desc (listing (bucket opts) ?rp (objects w))"
  let ?revs = "map (flagged ?rp ?k) ?files"
  from activate_stamps [OF assms(1,2)] obtain ob kvs where
    l: "listing (bucket opts) ?rp (objects w') = listing (bucket opts) ?rp (objects w)" and
    ob: "map_of (objects w') (bucket opts, indexKey_of opts) = Some ob" and
    kvs: "metadata (props ob) = Some kvs" "map_of kvs ''revision'' = Some ?k"
    by blast
  have "recorded_revision ob = Inr ?k"
    using kvs by (rule recorded_revision_stamped)
  from fetch_with_index [OF assms(3,4) ob this]
  have fetch: "fetchRevisions e' opts w' = (Resolved ?revs, fetch_world opts w')"
    by (simp add: l)
  have listed: "prefix ?rp (name d)" if "d \<in> set ?files" for d
    using that by (auto simp: set_array_sort dest: listing_prefix)
  have act: "\<forall>r \<in> set ?revs. active r = Some (sublist ?k (?rp @ revision r))"
    using listed flagged_listed(2) by auto
  have own: "\<forall>r \<in> set ?revs. revision r = ?k \<longrightarrow> active r = Some True"
    using act by auto
  from activate_Resolved_found [OF assms(1)] obtain revisions where
    f: "fetchRevisions e opts w = (Resolved revisions, fetch_world opts w)" and
    k: "?k \<in> set (map revision revisions)"
    by blast
  from f have "fetch_result e opts w = Resolved revisions"
    by (simp add: fetchRevisions_eq)
  then obtain cur where "sort_and_map ?rp (listing (bucket opts) ?rp (objects w)) cur = Inr revisions"
    using fetch_result_Resolved by blast
  then have "map revision revisions = map (\<lambda>d. drop (length ?rp) (name d)) ?files"
    by (rule sort_and_map_revisions)
  also have "\<dots> = map revision ?revs"
    by (simp add: flagged_def substr_def)
  finally have "?k \<in> set (map revision ?revs)"
    using k by simp
  then have ex: "\<exists>r \<in> set ?revs. revision r = ?k"
    by (metis (no_types, lifting) imageE list.set_map)
  from ob kvs fetch ex own act show ?thesis
    by blast
qed

theorem activate_then_fetchRevisions_witness:
  "fst (activate no_faults (index_options ''ccc'') three_revisions) = Resolved () \<and>
   makePublic (index_options ''ccc'') = False \<and>
   map_option (\<lambda>ob. metadata (props ob))
     (map_of (objects (snd (activate no_faults (index_options ''ccc'') three_revisions)))
        (''site'', ''index.html'')) = Some (Some [(''revision'', ''ccc'')]) \<and>
   fst (fetchRevisions no_faults (index_options ''ccc'')
          (snd (activate no_faults (index_options ''ccc'') three_revisions))) =
     Resolved [\<lparr>revision = ''ccc'', timestamp = 3, active = Some True\<rparr>,
               \<lparr>revision = ''bbb'', timestamp = 2, active = Some False\<rparr>,
               \<lparr>revision = ''aaa'', timestamp = 1, active = Some False\<rparr>]"
proof -
  let ?o = "index_options ''ccc''"
  let ?w' = "snd (activate no_faults ?o three_revisions)"
  have a: "activate no_faults ?o three_revisions = (Resolved (), ?w')"
    using activate_three by (simp add: prod_eq_iff)
  have m: "\<not> makePublic ?o \<or> makePublic_error no_faults = None"
    by (simp add: index_options_fields)
  from activate_then_fetchRevisions [OF a m no_faults_fields(6) no_faults_fields(7)]
  obtain revs where "fetchRevisions no_faults ?o ?w' = (Resolved revs, fetch_world ?o ?w')"
    by blast
  then have "fst (fetchRevisions no_faults ?o ?w') =
     Resolved [\<lparr>revision = ''ccc'', timestamp = 3, active = Some True\<rparr>,
               \<lparr>revision = ''bbb'', timestamp = 2, active = Some False\<rparr>,
               \<lparr>revision = ''aaa'', timestamp = 1, active = Some False\<rparr>]"
    using fetch_after_activate_three by simp
  then show ?thesis
    using activate_three by (simp add: index_options_fields stamped_plain)
qed

text \<open>
  C2 as stated fails: with the revisions \<^verbatim>\<open>abc\<close> and \<^verbatim>\<open>abcd\<close> stored, activating
  \<^verbatim>\<open>abc\<close> resolves, and the following listing reports both revisions as active,
  since \<^verbatim>\<open>abc\<close> is a substring of \<^verbatim>\<open>index.html:abcd\<close>.
\<close>

theorem activate_then_fetchRevisions_counterexample:
  "fst (activate no_faults (index_options ''abc'') two_revisions) = Resolved () \<and>
   fst (fetchRevisions no_faults (index_options ''abc'')
          (snd (activate no_faults (index_options ''abc'') two_revisions))) =
     Resolved [\<lparr>revision = ''abcd'', timestamp = 2, active = Some True\<rparr>,
               \<lparr>revision = ''abc'', timestamp = 1, active = Some True\<rparr>]"
  using activate_two fetch_after_activate_two by simp

end
